theory Spec2Isabelle
  imports Complex_Main "HOL-Library.Log_Nat"
begin

section \<open>ado\_lang\_inspector: language statistics over an Azure DevOps tenant\<close>

text \<open>
  A shallow embedding of \<^verbatim>\<open>src/ado_lang_inspector.py\<close>. Python strings are lists of
  characters; a character is read as a code point below 256. Python integers are \<open>int\<close>,
  and Python floats are the binary64 numbers, kept as rationals.
  Exceptions are values of the type \<open>error\<close>, and a function that may raise returns
  \<open>error + 'a\<close>. The HTTP transport is outside the program: what the service answers to
  each listing call is part of the input (the types \<open>ado_repo\<close>, \<open>ado_project\<close> below).
  An answer is an option: \<open>None\<close> is a non-success status, on which \<^verbatim>\<open>ADO._get\<close> raises
  \<^verbatim>\<open>HTTPError\<close>, and \<open>Some\<close> holds what the call returns.
\<close>

subsection \<open>Language classifier\<close>

text \<open>
  \<^verbatim>\<open>EXT_TO_LANG\<close>, in the order of the dictionary literal. The keys are pairwise
  different, so the lookup in the association list is the dictionary lookup.
\<close>

definition EXT_TO_LANG :: "(string \<times> string) list" where
  "EXT_TO_LANG =
    [(''bicep'', ''Bicep''),
     (''json'', ''JSON''),
     (''yaml'', ''YAML''), (''yml'', ''YAML''),
     (''tf'', ''Terraform''),
     (''ps1'', ''PowerShell''), (''psm1'', ''PowerShell''),
     (''sh'', ''Shell''),
     (''py'', ''Python''),
     (''ts'', ''TypeScript''), (''tsx'', ''TypeScript''),
     (''js'', ''JavaScript''), (''jsx'', ''JavaScript''),
     (''cs'', ''C#''),
     (''java'', ''Java''),
     (''go'', ''Go''),
     (''rb'', ''Ruby''),
     (''php'', ''PHP''),
     (''rs'', ''Rust''),
     (''cpp'', ''C++''), (''cxx'', ''C++''), (''cc'', ''C++''),
     (''c'', ''C''),
     (''h'', ''C/C++ Header''), (''hpp'', ''C++ Header''), (''hxx'', ''C++ Header''),
     (''scala'', ''Scala''),
     (''kt'', ''Kotlin''),
     (''md'', ''Markdown''),
     (''csv'', ''CSV''),
     (''xml'', ''XML''),
     (''ini'', ''INI''),
     (''toml'', ''TOML'')]"

text \<open>
  \<^verbatim>\<open>str.lower()\<close> on one code point below 256: the letters A to Z and the Latin-1
  capitals U+00C0 to U+00DE (the multiplication sign U+00D7 apart) move up by 32, every
  other code point stays.
\<close>

definition lower_char :: "char \<Rightarrow> char" where
  "lower_char c =
    (let n = (of_char c :: nat)
     in if (65 \<le> n \<and> n \<le> 90) \<or> (192 \<le> n \<and> n \<le> 222 \<and> n \<noteq> 215)
        then char_of (n + 32) else c)"

definition lower :: "string \<Rightarrow> string" where
  "lower s = map lower_char s"

text \<open>\<^verbatim>\<open>s.rsplit(sep, 1)[-1]\<close> for a separator of one character: what follows the last
  separator, the whole string when there is none.\<close>

definition rsplit_last :: "char \<Rightarrow> string \<Rightarrow> string" where
  "rsplit_last sep s = rev (takeWhile (\<lambda>c. c \<noteq> sep) (rev s))"

definition ext_from_path :: "string \<Rightarrow> string" where
  "ext_from_path path =
    (let name = rsplit_last CHR ''/'' path
     in if CHR ''.'' \<notin> set name then ''''
        else lower (rsplit_last CHR ''.'' name))"

definition lang_from_ext :: "string \<Rightarrow> string" where
  "lang_from_ext ext = (case map_of EXT_TO_LANG ext of None \<Rightarrow> ''Other'' | Some l \<Rightarrow> l)"

subsection \<open>Exceptions and Python values\<close>

text \<open>
  \<open>HTTPError\<close> is \<^verbatim>\<open>requests.HTTPError\<close>, raised by \<^verbatim>\<open>raise_for_status\<close> in
  \<^verbatim>\<open>ADO._get\<close> on a non-success status. \<open>TypeError\<close>, \<open>ZeroDivisionError\<close> and
  \<open>OverflowError\<close> are the built-in exceptions.
\<close>

datatype error = HTTPError | TypeError | ZeroDivisionError | OverflowError

text \<open>The truth value of an optional string: \<^verbatim>\<open>None\<close> and the empty string are false.\<close>

definition truthy :: "string option \<Rightarrow> bool" where
  "truthy v = (case v of None \<Rightarrow> False | Some s \<Rightarrow> s \<noteq> [])"

text \<open>
  The values that occur in the set displays of the program: strings, and sets (given by
  the list of their elements). A string is hashable, a set is not, and a set display
  raises \<^verbatim>\<open>TypeError\<close> when one of its elements is not hashable.
\<close>

datatype pyval = Str string | SetV "pyval list"

fun hashable :: "pyval \<Rightarrow> bool" where
  "hashable (Str s) = True"
| "hashable (SetV vs) = False"

definition set_display :: "pyval list \<Rightarrow> error + pyval" where
  "set_display vs = (if list_all hashable vs then Inr (SetV vs) else Inl TypeError)"

fun not_in :: "pyval \<Rightarrow> pyval \<Rightarrow> error + bool" where
  "not_in v (SetV vs) = Inr (v \<notin> set vs)"
| "not_in v (Str s) = Inl TypeError"

subsection \<open>Counters\<close>

text \<open>
  A \<^verbatim>\<open>collections.Counter\<close> is a dictionary, which keeps its keys in the order of their
  first insertion: an association list with pairwise different keys. \<open>counter_add c k v\<close>
  is \<^verbatim>\<open>c[k] += v\<close>: a missing key counts as 0 and is inserted at the end, a present key
  keeps its place.
\<close>

type_synonym counter = "(string \<times> int) list"

fun counter_add :: "counter \<Rightarrow> string \<Rightarrow> int \<Rightarrow> counter" where
  "counter_add [] k v = [(k, 0 + v)]"
| "counter_add ((k', n) # c) k v =
     (if k' = k then (k', n + v) # c else (k', n) # counter_add c k v)"

definition counter_get :: "counter \<Rightarrow> string \<Rightarrow> int" where
  "counter_get c k = (case map_of c k of None \<Rightarrow> 0 | Some n \<Rightarrow> n)"

text \<open>
  \<^verbatim>\<open>Counter.most_common()\<close> is \<^verbatim>\<open>sorted(self.items(), key=itemgetter(1), reverse=True)\<close>:
  a stable sort by descending count, which is a stable ascending sort by the negated count.
\<close>

definition most_common :: "counter \<Rightarrow> (string \<times> int) list" where
  "most_common c = sort_key (\<lambda>e. - snd e) c"

text \<open>\<^verbatim>\<open>sum(c.values()) or 1\<close>\<close>

definition sum_or_1 :: "counter \<Rightarrow> int" where
  "sum_or_1 c = (let s = sum_list (map snd c) in if s = 0 then 1 else s)"

subsection \<open>What the service answers\<close>

text \<open>An item yielded by \<^verbatim>\<open>ADO.list_files\<close>: the dictionary with the keys path and size.\<close>

record file_item =
  item_path :: string
  item_size :: int

text \<open>
  One entry of the \<^verbatim>\<open>changes\<close> list of a commit: \<open>changeType\<close> is
  \<^verbatim>\<open>ch.get("changeType")\<close>, and \<open>change_path\<close> is \<^verbatim>\<open>(ch.get("item") or {}).get("path")\<close>.
\<close>

record change =
  changeType :: "string option"
  change_path :: "string option"

text \<open>
  A commit returned by \<^verbatim>\<open>ADO.list_commits\<close>, with the answer to the request for its
  changes: a non-success status, or the list \<^verbatim>\<open>r.json().get("changes", [])\<close>.
\<close>

record commit =
  commitId :: string
  changes :: "change list option"

text \<open>
  A repository, with the answers to the calls made for it: \<open>commits\<close> is the answer to
  \<^verbatim>\<open>ado.list_commits\<close> for the configured date, \<open>files\<close> are the items that the
  generator \<^verbatim>\<open>ado.list_files\<close> yields, and \<open>files_fail\<close> says that the generator then
  raises \<^verbatim>\<open>HTTPError\<close> (a later page has a non-success status) instead of ending.
\<close>

record ado_repo =
  repo_name :: string
  defaultBranch :: "string option"
  commits :: "commit list option"
  files :: "file_item list"
  files_fail :: bool

text \<open>A project, with the answer to \<^verbatim>\<open>ado.list_repos\<close> for it.\<close>

record ado_project =
  proj_name :: string
  repos :: "ado_repo list option"

text \<open>
  The configuration: the parsed arguments, with \<open>since_iso\<close> the value of the local
  variable \<^verbatim>\<open>since_iso\<close> of \<^verbatim>\<open>main\<close> once the date is resolved.
\<close>

record config =
  org_url :: "string option"
  pat :: "string option"
  since_iso :: "string option"
  created_only :: bool
  exclude_non_code :: bool

subsection \<open>Changed paths of a list of commits\<close>

text \<open>The change kind of line 126, \<^verbatim>\<open>(ch.get("changeType") or "").lower()\<close>, and the
  body of the inner loop of \<^verbatim>\<open>list_changed_paths_for_commits\<close>, on the pair
  \<open>(changed, created)\<close>.\<close>

definition change_kind :: "change \<Rightarrow> string" where
  "change_kind ch = lower (case changeType ch of None \<Rightarrow> [] | Some s \<Rightarrow> s)"

definition apply_change :: "change \<Rightarrow> string set \<times> string set \<Rightarrow> string set \<times> string set" where
  "apply_change ch acc =
    (let ctype = change_kind ch
     in case change_path ch of
          None \<Rightarrow> acc
        | Some p \<Rightarrow>
            if p = [] then acc
            else if ctype = ''add'' then (insert p (fst acc), insert p (snd acc))
            else if ctype \<in> {''edit'', ''rename''} then (insert p (fst acc), snd acc)
            else acc)"

fun changed_paths_loop ::
  "commit list \<Rightarrow> string set \<times> string set \<Rightarrow> error + (string set \<times> string set)" where
  "changed_paths_loop [] acc = Inr acc"
| "changed_paths_loop (c # cs) acc =
     (case changes c of
        None \<Rightarrow> Inl HTTPError
      | Some chs \<Rightarrow> changed_paths_loop cs (fold apply_change chs acc))"

definition list_changed_paths_for_commits :: "commit list \<Rightarrow> bool \<Rightarrow> error + string set" where
  "list_changed_paths_for_commits cs created_only_flag =
    (case changed_paths_loop cs ({}, {}) of
       Inl e \<Rightarrow> Inl e
     | Inr acc \<Rightarrow> Inr (if created_only_flag then snd acc else fst acc))"

text \<open>
  For the statement of what the loop returns: the paths of a list of changes whose kind is
  among \<open>kinds\<close>, a change without a path or with an empty one left out as line 129
  does; and a commit, given by its identifier and its changes, whose request is answered.
\<close>

definition paths_with_kind :: "string set \<Rightarrow> change list \<Rightarrow> string set" where
  "paths_with_kind kinds chs =
    set (concat (map (\<lambda>ch. case change_path ch of
                              None \<Rightarrow> []
                            | Some p \<Rightarrow> if p \<noteq> [] \<and> change_kind ch \<in> kinds then [p] else [])
                     chs))"

definition answered :: "string \<times> change list \<Rightarrow> commit" where
  "answered c = \<lparr>commitId = fst c, changes = Some (snd c)\<rparr>"

subsection \<open>The aggregation loop of main\<close>

record repo_row =
  project :: string
  repository :: string
  default_branch :: string
  language :: string
  bytes :: int

text \<open>
  The variables of \<^verbatim>\<open>main\<close> that the loop over projects and repositories updates, and
  the lines printed to \<^verbatim>\<open>sys.stderr\<close>.
\<close>

record state =
  per_repo_rows :: "repo_row list"
  tenant_totals :: counter
  tenant_totals_code_only :: counter
  stderr :: "string list"

definition placeholder_row :: "string \<Rightarrow> string \<Rightarrow> string \<Rightarrow> repo_row" where
  "placeholder_row pn rn db =
    \<lparr>project = pn, repository = rn, default_branch = db, language = '''', bytes = 0\<rparr>"

text \<open>
  The optional recent filter (lines 213 to 222): \<open>None\<close> when no date is configured,
  otherwise the set of changed paths, empty when no commit is listed. An \<^verbatim>\<open>HTTPError\<close>
  of either call is not caught here.
\<close>

definition recent_paths_of :: "config \<Rightarrow> ado_repo \<Rightarrow> error + string set option" where
  "recent_paths_of cfg repo =
    (if truthy (since_iso cfg) then
       (case commits repo of
          None \<Rightarrow> Inl HTTPError
        | Some cs \<Rightarrow>
            if map commitId cs \<noteq> [] then
              (case list_changed_paths_for_commits cs (created_only cfg) of
                 Inl e \<Rightarrow> Inl e
               | Inr s \<Rightarrow> Inr (Some s))
            else Inr (Some {}))
     else Inr None)"

text \<open>The test of line 229:
  \<^verbatim>\<open>recent_paths is not None and item["path"] not in recent_paths\<close>.\<close>

definition filtered_out :: "string set option \<Rightarrow> file_item \<Rightarrow> bool" where
  "filtered_out recent_paths item =
    (case recent_paths of None \<Rightarrow> False | Some s \<Rightarrow> item_path item \<notin> s)"

text \<open>The body of the loop over the listed files (lines 229 to 235), on the pair
  \<open>(lang_bytes, total_bytes)\<close>.\<close>

definition scan_step :: "string set option \<Rightarrow> file_item \<Rightarrow> counter \<times> int \<Rightarrow> counter \<times> int" where
  "scan_step recent_paths item acc =
    (if filtered_out recent_paths item then acc
     else
       (let sz = item_size item;
            ext = ext_from_path (item_path item);
            lang = lang_from_ext ext
        in (counter_add (fst acc) lang sz, snd acc + sz)))"

text \<open>
  The condition of line 258,
  \<^verbatim>\<open>(not args.exclude_non_code) or (lang not in {{"Markdown","CSV"}})\<close>. The operator
  \<^verbatim>\<open>or\<close> evaluates its right operand only when the left one is false. The right operand
  builds a set display whose one element is the set display of the two strings.
\<close>

definition code_only_test :: "config \<Rightarrow> string \<Rightarrow> error + bool" where
  "code_only_test cfg lang =
    (if \<not> exclude_non_code cfg then Inr True
     else
       (case set_display [Str ''Markdown'', Str ''CSV''] of
          Inl e \<Rightarrow> Inl e
        | Inr inner \<Rightarrow>
            (case set_display [inner] of
               Inl e \<Rightarrow> Inl e
             | Inr outer \<Rightarrow> not_in (Str lang) outer)))"

text \<open>The loop over \<^verbatim>\<open>lang_bytes.items()\<close> (lines 249 to 259).\<close>

fun emit_rows ::
  "config \<Rightarrow> string \<Rightarrow> string \<Rightarrow> string \<Rightarrow> (string \<times> int) list \<Rightarrow> state \<Rightarrow> error + state" where
  "emit_rows cfg pn rn db [] st = Inr st"
| "emit_rows cfg pn rn db ((lang, b) # rest) st =
     (let st1 = st\<lparr>per_repo_rows := per_repo_rows st @
                   [\<lparr>project = pn, repository = rn, default_branch = db,
                     language = lang, bytes = b\<rparr>],
                  tenant_totals := counter_add (tenant_totals st) lang b\<rparr>
      in case code_only_test cfg lang of
           Inl e \<Rightarrow> Inl e
         | Inr t \<Rightarrow>
             if t then
               emit_rows cfg pn rn db rest
                 (st1\<lparr>tenant_totals_code_only :=
                        counter_add (tenant_totals_code_only st1) lang b\<rparr>)
             else emit_rows cfg pn rn db rest st1)"

definition error_line :: "string \<Rightarrow> string \<Rightarrow> string" where
  "error_line pn rn = ''  ! Error listing files for '' @ pn @ ''/'' @ rn @ '': ''"

text \<open>
  The body of the loop over the repositories of a project (lines 198 to 259). The text of
  the exception, which ends the line written to the error stream, is not modelled.
\<close>

definition process_repo :: "config \<Rightarrow> string \<Rightarrow> ado_repo \<Rightarrow> state \<Rightarrow> error + state" where
  "process_repo cfg pn repo st =
    (case (if truthy (defaultBranch repo) then defaultBranch repo else None) of
       None \<Rightarrow>
         Inr (st\<lparr>per_repo_rows := per_repo_rows st @ [placeholder_row pn (repo_name repo) '''']\<rparr>)
     | Some db \<Rightarrow>
         (case recent_paths_of cfg repo of
             Inl e \<Rightarrow> Inl e
           | Inr recent_paths \<Rightarrow>
               (let acc = fold (scan_step recent_paths) (files repo) ([], 0)
                in if files_fail repo then
                     Inr (st\<lparr>stderr := stderr st @ [error_line pn (repo_name repo)]\<rparr>)
                   else if snd acc = 0 then
                     Inr (st\<lparr>per_repo_rows := per_repo_rows st @
                               [placeholder_row pn (repo_name repo) db]\<rparr>)
                   else emit_rows cfg pn (repo_name repo) db (fst acc) st)))"

fun repos_loop :: "config \<Rightarrow> string \<Rightarrow> ado_repo list \<Rightarrow> state \<Rightarrow> error + state" where
  "repos_loop cfg pn [] st = Inr st"
| "repos_loop cfg pn (r # rs) st =
     (case process_repo cfg pn r st of
        Inl e \<Rightarrow> Inl e
      | Inr st' \<Rightarrow> repos_loop cfg pn rs st')"

fun projects_loop :: "config \<Rightarrow> ado_project list \<Rightarrow> state \<Rightarrow> error + state" where
  "projects_loop cfg [] st = Inr st"
| "projects_loop cfg (p # ps) st =
     (case repos p of
        None \<Rightarrow> Inl HTTPError
      | Some rs \<Rightarrow>
          (case repos_loop cfg (proj_name p) rs st of
             Inl e \<Rightarrow> Inl e
           | Inr st' \<Rightarrow> projects_loop cfg ps st'))"

subsection \<open>Floats and percentages\<close>

text \<open>
  A Python float is an IEEE 754 binary64 number. Its values here are the finite ones, kept
  as the rational numbers they are, and the two infinities; the operations of the program
  produce no NaN, and the sign of a zero is not kept.

  \<open>round_half_even\<close> rounds a rational to the nearest integer, a tie to the even one.
  \<open>expo q\<close>, for a positive \<open>q\<close>, is the exponent \<open>e\<close> with \<open>2 ^ e \<le> q < 2 ^ (e + 1)\<close>.
  \<open>to_double q\<close> is the binary64 number nearest to \<open>q\<close>, a tie to the even significand:
  the significand has 53 bits, the exponent is at least -1022 (below it the numbers are
  subnormal), and a result of magnitude \<open>2 ^ 1024\<close> or more is an infinity.
\<close>

definition round_half_even :: "rat \<Rightarrow> int" where
  "round_half_even x =
    (let f = \<lfloor>x\<rfloor>; d = x - of_int f
     in if d < 1 / 2 then f else if 1 / 2 < d then f + 1 else if even f then f else f + 1)"

definition expo :: "rat \<Rightarrow> int" where
  "expo q = (if 1 \<le> q then bitlen \<lfloor>q\<rfloor> - 1 else - bitlen (\<lceil>1 / q\<rceil> - 1))"

datatype fval = Fin rat | PInf | NInf

definition to_double :: "rat \<Rightarrow> fval" where
  "to_double q =
    (if q = 0 then Fin 0
     else
       (let e = max (expo \<bar>q\<bar>) (- 1022);
            ulp = 2 powi (e - 52);
            m = round_half_even (q / ulp)
        in if 1024 \<le> e \<or> (e = 1023 \<and> 2 ^ 53 \<le> \<bar>m\<bar>)
           then (if 0 < q then PInf else NInf)
           else Fin (of_int m * ulp)))"

text \<open>
  The conversion of an integer operand to a float: the nearest double, and
  \<^verbatim>\<open>OverflowError\<close> (int too large to convert to float) when that is not finite.
\<close>

definition int_to_float :: "int \<Rightarrow> error + rat" where
  "int_to_float n = (case to_double (of_int n) of Fin r \<Rightarrow> Inr r | _ \<Rightarrow> Inl OverflowError)"

text \<open>The division of a float by a finite float: \<^verbatim>\<open>ZeroDivisionError\<close> on a zero divisor.\<close>

definition float_div :: "fval \<Rightarrow> rat \<Rightarrow> error + fval" where
  "float_div x y =
    (if y = 0 then Inl ZeroDivisionError
     else Inr (case x of
                 Fin a \<Rightarrow> to_double (a / y)
               | PInf \<Rightarrow> if 0 < y then PInf else NInf
               | NInf \<Rightarrow> if 0 < y then NInf else PInf))"

text \<open>
  \<^verbatim>\<open>round(x, 2)\<close> on a float: an infinity is returned as it is; a finite \<open>x\<close> is rounded
  to two decimals, a tie to the even digit, and the decimal is converted back to the
  nearest double (\<^verbatim>\<open>OverflowError\<close> when that is not finite).
\<close>

definition round2 :: "fval \<Rightarrow> error + fval" where
  "round2 x =
    (case x of
       Fin a \<Rightarrow>
         (case to_double (of_int (round_half_even (a * 100)) / 100) of
            Fin r \<Rightarrow> Inr (Fin r)
          | _ \<Rightarrow> Inl OverflowError)
     | _ \<Rightarrow> Inr x)"

text \<open>
  A percentage is the float \<^verbatim>\<open>100.0 * b / total\<close> of two integers. A row keeps the two
  operands, as \<open>Percent b total\<close>. \<open>percent_double\<close> is the evaluation of the expression:
  \<open>b\<close> is converted and multiplied by 100.0, then \<open>total\<close> is converted, then the
  quotient is taken. \<open>percent_rounded\<close> is the evaluation of
  \<^verbatim>\<open>round(100.0 * b / total, 2)\<close>, the value that the tenant-level report holds.
  \<open>rounded_percent_of\<close> (line 271) and \<open>percent_of\<close> (line 280) raise what the evaluation
  raises, and give the operands otherwise. The formatting of line 281 is not modelled.
\<close>

datatype percent = Percent int int

definition percent_double :: "percent \<Rightarrow> error + fval" where
  "percent_double p =
    (case p of
       Percent b tot \<Rightarrow>
         (case int_to_float b of
            Inl e \<Rightarrow> Inl e
          | Inr xb \<Rightarrow>
              (let prod = to_double (100 * xb)
               in case int_to_float tot of
                    Inl e \<Rightarrow> Inl e
                  | Inr xt \<Rightarrow> float_div prod xt)))"

definition percent_rounded :: "percent \<Rightarrow> error + fval" where
  "percent_rounded p = (case percent_double p of Inl e \<Rightarrow> Inl e | Inr x \<Rightarrow> round2 x)"

definition percent_of :: "int \<Rightarrow> int \<Rightarrow> error + percent" where
  "percent_of b tot =
    (case percent_double (Percent b tot) of Inl e \<Rightarrow> Inl e | Inr x \<Rightarrow> Inr (Percent b tot))"

definition rounded_percent_of :: "int \<Rightarrow> int \<Rightarrow> error + percent" where
  "rounded_percent_of b tot =
    (case percent_rounded (Percent b tot) of Inl e \<Rightarrow> Inl e | Inr x \<Rightarrow> Inr (Percent b tot))"

subsection \<open>The reports\<close>

record tenant_row =
  t_language :: string
  t_bytes :: int
  percent_all_files :: percent

text \<open>The loop of lines 267 to 272, over \<^verbatim>\<open>tenant_totals.most_common()\<close>.\<close>

fun tenant_rows :: "int \<Rightarrow> (string \<times> int) list \<Rightarrow> error + tenant_row list" where
  "tenant_rows total_all [] = Inr []"
| "tenant_rows total_all ((lang, b) # rest) =
     (case rounded_percent_of b total_all of
        Inl e \<Rightarrow> Inl e
      | Inr pc \<Rightarrow>
          (case tenant_rows total_all rest of
             Inl e \<Rightarrow> Inl e
           | Inr rows \<Rightarrow>
               Inr (\<lparr>t_language = lang, t_bytes = b, percent_all_files = pc\<rparr> # rows)))"

text \<open>The loop of lines 279 to 281: one printed line for each language of the code-only
  tally.\<close>

fun summary_lines :: "int \<Rightarrow> (string \<times> int) list \<Rightarrow> error + (string \<times> percent) list" where
  "summary_lines total_code [] = Inr []"
| "summary_lines total_code ((lang, b) # rest) =
     (case percent_of b total_code of
        Inl e \<Rightarrow> Inl e
      | Inr pc \<Rightarrow>
          (case summary_lines total_code rest of
             Inl e \<Rightarrow> Inl e
           | Inr ls \<Rightarrow> Inr ((lang, pc) # ls)))"

text \<open>
  What a run leaves behind: the exit status, the two files written by \<^verbatim>\<open>write_csv\<close>
  (the header and the rows; \<open>None\<close> when the file is not written), the language lines of
  the code-only summary, and the error stream.
\<close>

record run_output =
  exit_status :: int
  repo_csv :: "(string list \<times> repo_row list) option"
  tenant_csv :: "(string list \<times> tenant_row list) option"
  code_only_summary :: "(string \<times> percent) list"
  err_stream :: "string list"

definition initial_state :: state where
  "initial_state =
    \<lparr>per_repo_rows = [], tenant_totals = [], tenant_totals_code_only = [], stderr = []\<rparr>"

text \<open>
  The part of \<^verbatim>\<open>main\<close> after the loops (lines 261 to 284). Line 263 writes the
  repository-level report first. An exception of the loop of lines 267 to 272 leaves
  \<^verbatim>\<open>main\<close> with that report written and the tenant-level report not written; an
  exception of the loop of lines 279 to 281 leaves it with both reports written.
\<close>

definition write_reports :: "state \<Rightarrow> error + run_output" where
  "write_reports st =
    (case tenant_rows (sum_or_1 (tenant_totals st)) (most_common (tenant_totals st)) of
       Inl e \<Rightarrow> Inl e
     | Inr rows \<Rightarrow>
         (case summary_lines (sum_or_1 (tenant_totals_code_only st))
                 (most_common (tenant_totals_code_only st)) of
            Inl e \<Rightarrow> Inl e
          | Inr ls \<Rightarrow>
              Inr \<lparr>exit_status = 0,
                   repo_csv = Some ([''project'', ''repository'', ''default_branch'',
                                     ''language'', ''bytes''], per_repo_rows st),
                   tenant_csv = Some ([''language'', ''bytes'', ''percent_all_files''], rows),
                   code_only_summary = ls,
                   err_stream = stderr st\<rparr>))"

text \<open>
  \<^verbatim>\<open>main\<close>, on a configuration and the answer of \<^verbatim>\<open>ado.list_projects\<close>. An exception
  that nothing catches leaves \<^verbatim>\<open>main\<close>: the result is \<open>Inl\<close>. An exception of the loops
  over projects and repositories (\<^verbatim>\<open>HTTPError\<close>, \<^verbatim>\<open>TypeError\<close>) ends the run before any
  file is written; one of the part after the loops ends it as said there.
\<close>

definition main :: "config \<Rightarrow> ado_project list option \<Rightarrow> error + run_output" where
  "main cfg tenant =
    (if \<not> truthy (org_url cfg) \<or> \<not> truthy (pat cfg) then
       Inr \<lparr>exit_status = 2, repo_csv = None, tenant_csv = None, code_only_summary = [],
            err_stream = [''Please set --org-url/--pat or ADO_ORG_URL/ADO_PAT.'']\<rparr>
     else
       (case tenant of
          None \<Rightarrow> Inl HTTPError
        | Some projects \<Rightarrow>
            (case projects_loop cfg projects initial_state of
               Inl e \<Rightarrow> Inl e
             | Inr st \<Rightarrow> write_reports st)))"

subsection \<open>Notions for the statements about the reports\<close>

text \<open>
  \<open>tally_from c evs\<close> is the counter \<open>c\<close> after the additions \<^verbatim>\<open>c[k] += v\<close> for the
  pairs \<open>(k, v)\<close> of \<open>evs\<close>, in their order. \<open>first_seen xs\<close> keeps the first occurrence of
  each element of \<open>xs\<close>. \<open>lang_rows rows\<close> are the language and byte count of the rows that
  have a language (the placeholder rows have none).
\<close>

definition tally_from :: "counter \<Rightarrow> (string \<times> int) list \<Rightarrow> counter" where
  "tally_from c evs = fold (\<lambda>e acc. counter_add acc (fst e) (snd e)) evs c"

fun first_seen :: "'a list \<Rightarrow> 'a list" where
  "first_seen [] = []"
| "first_seen (x # xs) = x # filter (\<lambda>y. y \<noteq> x) (first_seen xs)"

definition lang_rows :: "repo_row list \<Rightarrow> (string \<times> int) list" where
  "lang_rows rows = map (\<lambda>r. (language r, bytes r)) (filter (\<lambda>r. language r \<noteq> []) rows)"

text \<open>
  What holds of the state between two repositories: the tenant tally is the tally of the
  rows with a language, in their order; the code-only tally equals it when non-code is not
  excluded and is empty otherwise; and when some row has a language, some row has a byte
  count that is not zero.
\<close>

definition report_inv :: "config \<Rightarrow> state \<Rightarrow> bool" where
  "report_inv cfg st \<longleftrightarrow>
     tenant_totals st = tally_from [] (lang_rows (per_repo_rows st))
     \<and> tenant_totals_code_only st = (if exclude_non_code cfg then [] else tenant_totals st)
     \<and> (lang_rows (per_repo_rows st) \<noteq> [] \<longrightarrow> (\<exists>r\<in>set (per_repo_rows st). bytes r \<noteq> 0))"



subsection \<open>Example inputs\<close>

text \<open>
  The end-to-end scenario: one project P with one repository R on the branch main, holding
  a.py of 100 bytes and b.md of 50 bytes, and no date configured.
\<close>

definition scenario_config :: "bool \<Rightarrow> config" where
  "scenario_config excl =
    \<lparr>org_url = Some ''https://dev.azure.com/org'', pat = Some ''token'', since_iso = None,
     created_only = False, exclude_non_code = excl\<rparr>"

definition scenario_repo :: ado_repo where
  "scenario_repo =
    \<lparr>repo_name = ''R'', defaultBranch = Some ''refs/heads/main'', commits = Some [],
     files = [\<lparr>item_path = ''a.py'', item_size = 100\<rparr>,
              \<lparr>item_path = ''b.md'', item_size = 50\<rparr>],
     files_fail = False\<rparr>"

definition scenario_tenant :: "ado_project list option" where
  "scenario_tenant = Some [\<lparr>proj_name = ''P'', repos = Some [scenario_repo]\<rparr>]"

text \<open>The two commits of the recency example: the first adds a.py, the second edits a.py
  and adds b.md.\<close>

definition commit_C1 :: "string \<times> change list" where
  "commit_C1 = (''c1'', [\<lparr>changeType = Some ''add'', change_path = Some ''a.py''\<rparr>])"

definition commit_C2 :: "string \<times> change list" where
  "commit_C2 =
    (''c2'', [\<lparr>changeType = Some ''edit'', change_path = Some ''a.py''\<rparr>,
              \<lparr>changeType = Some ''add'', change_path = Some ''b.md''\<rparr>])"

text \<open>
  A configuration with a date, and four repositories: one with a branch, a file and no
  commit since the date; one without a default branch; one whose only file is empty; one
  whose commit listing is answered with a non-success status.
\<close>

definition recency_config :: config where
  "recency_config =
    \<lparr>org_url = Some ''https://dev.azure.com/org'', pat = Some ''token'',
     since_iso = Some ''2024-01-01'', created_only = False, exclude_non_code = False\<rparr>"

definition stale_repo :: ado_repo where
  "stale_repo =
    \<lparr>repo_name = ''R'', defaultBranch = Some ''refs/heads/main'', commits = Some [],
     files = [\<lparr>item_path = ''a.py'', item_size = 100\<rparr>], files_fail = False\<rparr>"

definition branchless_repo :: ado_repo where
  "branchless_repo =
    \<lparr>repo_name = ''B'', defaultBranch = None, commits = Some [], files = [], files_fail = False\<rparr>"

definition hollow_repo :: ado_repo where
  "hollow_repo =
    \<lparr>repo_name = ''H'', defaultBranch = Some ''refs/heads/main'', commits = Some [],
     files = [\<lparr>item_path = ''pkg/__init__.py'', item_size = 0\<rparr>], files_fail = False\<rparr>"

definition broken_repo :: ado_repo where
  "broken_repo =
    \<lparr>repo_name = ''Q'', defaultBranch = Some ''refs/heads/main'', commits = None,
     files = [\<lparr>item_path = ''a.py'', item_size = 100\<rparr>], files_fail = False\<rparr>"

text \<open>
  The headers of the two reports; a repository with a file of 100 bytes and an empty file,
  and the rows of its run; a repository with two languages of 10 bytes each and one of 30
  bytes, and the output of its run; the output of a run over a repository without a branch
  and one with an empty file only.
\<close>

definition repo_header :: "string list" where
  "repo_header = [''project'', ''repository'', ''default_branch'', ''language'', ''bytes'']"

definition tenant_header :: "string list" where
  "tenant_header = [''language'', ''bytes'', ''percent_all_files'']"

definition zero_file_repo :: ado_repo where
  "zero_file_repo =
    \<lparr>repo_name = ''Z'', defaultBranch = Some ''refs/heads/main'', commits = Some [],
     files = [\<lparr>item_path = ''a.py'', item_size = 100\<rparr>,
              \<lparr>item_path = ''notes.md'', item_size = 0\<rparr>],
     files_fail = False\<rparr>"

definition zero_file_repo_rows :: "repo_row list" where
  "zero_file_repo_rows =
    [\<lparr>project = ''P'', repository = ''Z'', default_branch = ''refs/heads/main'',
      language = ''Python'', bytes = 100\<rparr>,
     \<lparr>project = ''P'', repository = ''Z'', default_branch = ''refs/heads/main'',
      language = ''Markdown'', bytes = 0\<rparr>]"

definition zero_file_tenant_rows :: "tenant_row list" where
  "zero_file_tenant_rows =
    [\<lparr>t_language = ''Python'', t_bytes = 100, percent_all_files = Percent 100 100\<rparr>,
     \<lparr>t_language = ''Markdown'', t_bytes = 0, percent_all_files = Percent 0 100\<rparr>]"

definition tie_repo :: ado_repo where
  "tie_repo =
    \<lparr>repo_name = ''T'', defaultBranch = Some ''refs/heads/main'', commits = Some [],
     files = [\<lparr>item_path = ''x.py'', item_size = 10\<rparr>,
              \<lparr>item_path = ''y.md'', item_size = 10\<rparr>,
              \<lparr>item_path = ''z.go'', item_size = 30\<rparr>],
     files_fail = False\<rparr>"

definition tie_repo_rows :: "repo_row list" where
  "tie_repo_rows =
    [\<lparr>project = ''P'', repository = ''T'', default_branch = ''refs/heads/main'',
      language = ''Python'', bytes = 10\<rparr>,
     \<lparr>project = ''P'', repository = ''T'', default_branch = ''refs/heads/main'',
      language = ''Markdown'', bytes = 10\<rparr>,
     \<lparr>project = ''P'', repository = ''T'', default_branch = ''refs/heads/main'',
      language = ''Go'', bytes = 30\<rparr>]"

definition tie_tenant_rows :: "tenant_row list" where
  "tie_tenant_rows =
    [\<lparr>t_language = ''Go'', t_bytes = 30, percent_all_files = Percent 30 50\<rparr>,
     \<lparr>t_language = ''Python'', t_bytes = 10, percent_all_files = Percent 10 50\<rparr>,
     \<lparr>t_language = ''Markdown'', t_bytes = 10, percent_all_files = Percent 10 50\<rparr>]"

definition tie_output :: run_output where
  "tie_output =
    \<lparr>exit_status = 0,
     repo_csv = Some (repo_header, tie_repo_rows),
     tenant_csv = Some (tenant_header, tie_tenant_rows),
     code_only_summary = [(''Go'', Percent 30 50), (''Python'', Percent 10 50),
                          (''Markdown'', Percent 10 50)],
     err_stream = []\<rparr>"








subsection \<open>Facts about the classifier\<close>

lemma takeWhile_all_neq:
  "sep \<notin> set t \<Longrightarrow> takeWhile (\<lambda>c. c \<noteq> sep) (t @ r) = t @ takeWhile (\<lambda>c. c \<noteq> sep) r"
  by (induction t) auto

lemma rsplit_last_append:
  assumes "sep \<notin> set t"
  shows "rsplit_last sep (d @ sep # t) = t"
proof -
  from assms have "sep \<notin> set (rev t)" by simp
  then have "takeWhile (\<lambda>c. c \<noteq> sep) (rev t @ sep # rev d) = rev t"
    by (simp add: takeWhile_all_neq)
  then show ?thesis by (simp add: rsplit_last_def)
qed

lemma rsplit_last_none:
  assumes "sep \<notin> set t"
  shows "rsplit_last sep t = t"
proof -
  from assms have "takeWhile (\<lambda>c. c \<noteq> sep) (rev t) = rev t"
    by (auto simp: takeWhile_eq_all_conv)
  then show ?thesis unfolding rsplit_last_def by (simp only: rev_rev_ident)
qed

lemma rsplit_last_free: "sep \<notin> set (rsplit_last sep s)"
  unfolding rsplit_last_def
  by (metis (mono_tags, lifting) set_rev set_takeWhileD)

lemma EXT_TO_LANG_keys_distinct: "distinct (map fst EXT_TO_LANG)"
  by (simp add: EXT_TO_LANG_def)

lemma lang_from_ext_unmapped:
  "ext \<notin> fst ` set EXT_TO_LANG \<Longrightarrow> lang_from_ext ext = ''Other''"
  by (simp add: lang_from_ext_def map_of_eq_None_iff [THEN iffD2])

lemma lang_from_ext_mapped:
  "(ext, l) \<in> set EXT_TO_LANG \<Longrightarrow> lang_from_ext ext = l"
  by (simp add: lang_from_ext_def map_of_is_SomeI [OF EXT_TO_LANG_keys_distinct])

lemma lang_from_ext_nonempty: "lang_from_ext ext \<noteq> ''''"
proof (cases "map_of EXT_TO_LANG ext")
  case None
  then show ?thesis by (simp add: lang_from_ext_def)
next
  case (Some l)
  then have "(ext, l) \<in> set EXT_TO_LANG" by (rule map_of_SomeD)
  then have "l \<noteq> ''''" by (auto simp: EXT_TO_LANG_def)
  with Some show ?thesis by (simp add: lang_from_ext_def)
qed

text \<open>
  C9. The classifier is a total function of the path alone. The extension is computed on the
  final segment of the path (what follows the last slash); it is empty when that segment has
  no dot, and otherwise it is what follows the last dot of the segment, in lower case. The
  language is the entry of the table for the extension, and \<open>Other\<close> for an extension
  that the table does not map, the empty one among them. The three examples: src/app/main.py
  is Python, README is Other, archive.tar.gz has the extension gz and is Other.
\<close>

theorem classifier_by_extension:
  "(CHR ''/'' \<notin> set n \<longrightarrow> ext_from_path (d @ ''/'' @ n) = ext_from_path n)
   \<and> (CHR ''/'' \<notin> set n \<and> CHR ''.'' \<notin> set n \<longrightarrow> ext_from_path n = '''')
   \<and> (CHR ''/'' \<notin> set (b @ ''.'' @ e) \<and> CHR ''.'' \<notin> set e \<longrightarrow>
          ext_from_path (b @ ''.'' @ e) = lower e)
   \<and> ((ext, l) \<in> set EXT_TO_LANG \<longrightarrow> lang_from_ext ext = l)
   \<and> (ext \<notin> fst ` set EXT_TO_LANG \<longrightarrow> lang_from_ext ext = ''Other'')
   \<and> lang_from_ext '''' = ''Other''
   \<and> ext_from_path ''src/app/main.py'' = ''py''
   \<and> lang_from_ext (ext_from_path ''src/app/main.py'') = ''Python''
   \<and> ext_from_path ''README'' = ''''
   \<and> lang_from_ext (ext_from_path ''README'') = ''Other''
   \<and> ext_from_path ''archive.tar.gz'' = ''gz''
   \<and> lang_from_ext (ext_from_path ''archive.tar.gz'') = ''Other''"
proof (intro conjI impI)
  assume "CHR ''/'' \<notin> set n"
  then show "ext_from_path (d @ ''/'' @ n) = ext_from_path n"
    by (simp add: ext_from_path_def rsplit_last_append rsplit_last_none)
next
  assume "CHR ''/'' \<notin> set n \<and> CHR ''.'' \<notin> set n"
  then show "ext_from_path n = ''''"
    by (simp add: ext_from_path_def rsplit_last_none)
next
  assume a: "CHR ''/'' \<notin> set (b @ ''.'' @ e) \<and> CHR ''.'' \<notin> set e"
  then have "rsplit_last CHR ''/'' (b @ ''.'' @ e) = b @ ''.'' @ e"
    by (intro rsplit_last_none) simp
  moreover from a have "rsplit_last CHR ''.'' (b @ CHR ''.'' # e) = e"
    by (intro rsplit_last_append) simp
  ultimately show "ext_from_path (b @ ''.'' @ e) = lower e"
    by (simp add: ext_from_path_def)
next
  assume "(ext, l) \<in> set EXT_TO_LANG"
  then show "lang_from_ext ext = l" by (rule lang_from_ext_mapped)
next
  assume "ext \<notin> fst ` set EXT_TO_LANG"
  then show "lang_from_ext ext = ''Other''" by (rule lang_from_ext_unmapped)
next
  show "lang_from_ext '''' = ''Other''" by code_simp
next
  show "ext_from_path ''src/app/main.py'' = ''py''" by code_simp
next
  show "lang_from_ext (ext_from_path ''src/app/main.py'') = ''Python''" by code_simp
next
  show "ext_from_path ''README'' = ''''" by code_simp
next
  show "lang_from_ext (ext_from_path ''README'') = ''Other''" by code_simp
next
  show "ext_from_path ''archive.tar.gz'' = ''gz''" by code_simp
next
  show "lang_from_ext (ext_from_path ''archive.tar.gz'') = ''Other''" by code_simp
qed

theorem classifier_by_extension_witness:
  "CHR ''/'' \<notin> set ''Main.CS'' \<and> CHR ''.'' \<notin> set ''CS''
   \<and> (''cs'', ''C#'') \<in> set EXT_TO_LANG \<and> ''gz'' \<notin> fst ` set EXT_TO_LANG
   \<and> ext_from_path (''src/app'' @ ''/'' @ ''Main.CS'') = ext_from_path ''Main.CS''
   \<and> ext_from_path (''Main'' @ ''.'' @ ''CS'') = ''cs''
   \<and> lang_from_ext ''cs'' = ''C#''
   \<and> lang_from_ext ''gz'' = ''Other''"
proof -
  have h1: "CHR ''/'' \<notin> set ''Main.CS''" by simp
  have h2: "CHR ''/'' \<notin> set (''Main'' @ ''.'' @ ''CS'') \<and> CHR ''.'' \<notin> set ''CS''" by simp
  have h3: "(''cs'', ''C#'') \<in> set EXT_TO_LANG" by (simp add: EXT_TO_LANG_def)
  have h4: "''gz'' \<notin> fst ` set EXT_TO_LANG" by (simp add: EXT_TO_LANG_def)
  have lw: "lower ''CS'' = ''cs''" by code_simp
  note c = classifier_by_extension
    [where n = "''Main.CS''" and d = "''src/app''" and b = "''Main''" and e = "''CS''"
       and ext = "''cs''" and l = "''C#''"]
  note g = classifier_by_extension [where ext = "''gz''"]
  from c h1 have a1: "ext_from_path (''src/app'' @ ''/'' @ ''Main.CS'') = ext_from_path ''Main.CS''"
    by blast
  from c h2 have "ext_from_path (''Main'' @ ''.'' @ ''CS'') = lower ''CS''" by blast
  with lw have a2: "ext_from_path (''Main'' @ ''.'' @ ''CS'') = ''cs''" by (simp only:)
  from c h3 have a3: "lang_from_ext ''cs'' = ''C#''" by blast
  from g h4 have a4: "lang_from_ext ''gz'' = ''Other''" by blast
  from h1 h2 h3 h4 a1 a2 a3 a4 show ?thesis by blast
qed

subsection \<open>Facts about the floats\<close>


lemma round_half_even_int: "round_half_even (of_int n) = n"
  by (simp add: round_half_even_def)




lemma expo_bounds:
  assumes "0 < q"
  shows "2 powi (expo q) \<le> q \<and> q < 2 powi (expo q + 1)"
proof (cases "1 \<le> q")
  case True
  let ?n = "\<lfloor>q\<rfloor>"
  from True have n: "0 < ?n" by simp
  from bitlen_bounds [OF n] have b: "2 ^ nat (bitlen ?n - 1) \<le> ?n" "?n < 2 ^ nat (bitlen ?n)"
    by auto
  from n have bl: "1 \<le> bitlen ?n" by (simp add: bitlen_alt_def)
  have "(2::rat) powi (bitlen ?n - 1) = of_int (2 ^ nat (bitlen ?n - 1))"
    using bl by (simp add: power_int_def)
  also have "\<dots> \<le> of_int ?n" using b(1) by (simp only: of_int_le_iff)
  also have "\<dots> \<le> q" by simp
  finally have lo: "2 powi (bitlen ?n - 1) \<le> q" .
  have "?n + 1 \<le> 2 ^ nat (bitlen ?n)" using b(2) by simp
  then have "(of_int (?n + 1) :: rat) \<le> of_int (2 ^ nat (bitlen ?n))"
    by (simp only: of_int_le_iff)
  moreover have "q < of_int (?n + 1)" by linarith
  ultimately have "q < of_int (2 ^ nat (bitlen ?n))" by linarith
  also have "\<dots> = 2 powi (bitlen ?n)" using bl by (simp add: power_int_def)
  finally have hi: "q < 2 powi (bitlen ?n - 1 + 1)" by simp
  from True lo hi show ?thesis by (simp add: expo_def)
next
  case False
  let ?y = "1 / q"
  let ?a = "\<lceil>?y\<rceil> - 1"
  from False assms have y1: "1 < ?y" by (simp add: field_simps)
  then have a: "0 < ?a" by (simp add: less_ceiling_iff)
  from bitlen_bounds [OF a] have b: "2 ^ nat (bitlen ?a - 1) \<le> ?a" "?a < 2 ^ nat (bitlen ?a)"
    by auto
  from a have bl: "1 \<le> bitlen ?a" by (simp add: bitlen_alt_def)
  have ya: "of_int ?a < ?y" by linarith
  have "?a + 1 \<le> 2 ^ nat (bitlen ?a)" using b(2) by simp
  then have "(of_int (?a + 1) :: rat) \<le> of_int (2 ^ nat (bitlen ?a))"
    by (simp only: of_int_le_iff)
  moreover have "?y \<le> of_int (?a + 1)" by simp
  ultimately have "?y \<le> of_int (2 ^ nat (bitlen ?a))" by linarith
  then have yhi: "?y \<le> 2 ^ nat (bitlen ?a)" by simp
  have "(of_int (2 ^ nat (bitlen ?a - 1)) :: rat) \<le> of_int ?a"
    using b(1) by (simp only: of_int_le_iff)
  with ya have ylo: "2 ^ nat (bitlen ?a - 1) < ?y" by simp
  have p: "(0::rat) < 2 ^ nat (bitlen ?a)" "(0::rat) < 2 ^ nat (bitlen ?a - 1)" by simp_all
  from yhi assms p have lo: "1 / 2 ^ nat (bitlen ?a) \<le> q"
    by (simp add: field_simps)
  from ylo assms p have hi: "q < 1 / 2 ^ nat (bitlen ?a - 1)"
    by (simp add: field_simps)
  have e1: "(2::rat) powi (- bitlen ?a) = 1 / 2 ^ nat (bitlen ?a)"
    using bl by (simp add: power_int_def field_simps)
  have e2: "(2::rat) powi (- bitlen ?a + 1) = 1 / 2 ^ nat (bitlen ?a - 1)"
  proof (cases "bitlen ?a = 1")
    case True
    then show ?thesis by simp
  next
    case False
    with bl have "- bitlen ?a + 1 < 0" by simp
    moreover have "nat (- (- bitlen ?a + 1)) = nat (bitlen ?a - 1)" by simp
    ultimately show ?thesis by (simp add: power_int_def field_simps)
  qed
  from False lo hi e1 e2 show ?thesis by (simp add: expo_def)
qed

lemma pow2_less_cancel: "(2::rat) powi a < 2 powi b \<Longrightarrow> a < b"
  using power_int_increasing [of b a "2::rat"] by (cases "a < b") auto












lemma percent_of_Inr: "percent_of b tot = Inr pc \<Longrightarrow> pc = Percent b tot"
  by (auto simp: percent_of_def split: sum.splits)

lemma rounded_percent_of_Inr: "rounded_percent_of b tot = Inr pc \<Longrightarrow> pc = Percent b tot"
  by (auto simp: rounded_percent_of_def split: sum.splits)




text \<open>An integer of magnitude \<open>2 ^ 1024\<close> or more is not converted: the evaluation of
  a percentage of such a byte count raises \<^verbatim>\<open>OverflowError\<close>.\<close>

lemma int_to_float_overflow:
  assumes "2 ^ 1024 \<le> \<bar>n\<bar>"
  shows "int_to_float n = Inl OverflowError"
proof -
  let ?q = "of_int n :: rat"
  from assms have "(of_int (2 ^ 1024) :: rat) \<le> of_int \<bar>n\<bar>" by (simp only: of_int_le_iff)
  then have big: "2 powi 1024 \<le> \<bar>?q\<bar>" by simp
  have "(0::rat) < 2 powi 1024" by simp
  with big have qp: "0 < \<bar>?q\<bar>" by linarith
  then have q0: "?q \<noteq> 0" by simp
  from expo_bounds [OF qp] big have "(2::rat) powi 1024 < 2 powi (expo \<bar>?q\<bar> + 1)" by linarith
  then have "1024 \<le> expo \<bar>?q\<bar>" using pow2_less_cancel by fastforce
  with q0 show ?thesis
    by (simp add: int_to_float_def to_double_def Let_def max_def)
qed

lemma rounded_percent_of_overflow:
  "2 ^ 1024 \<le> \<bar>b\<bar> \<Longrightarrow> rounded_percent_of b tot = Inl OverflowError"
  by (simp add: rounded_percent_of_def percent_rounded_def percent_double_def
        int_to_float_overflow)

subsection \<open>Changed paths\<close>

lemma paths_with_kind_Nil: "paths_with_kind kinds [] = {}"
  by (simp add: paths_with_kind_def)

lemma paths_with_kind_Cons:
  "paths_with_kind kinds (ch # chs) = paths_with_kind kinds [ch] \<union> paths_with_kind kinds chs"
  by (simp add: paths_with_kind_def)

lemma apply_change_step:
  "apply_change ch acc =
     (fst acc \<union> paths_with_kind {''add'', ''edit'', ''rename''} [ch],
      snd acc \<union> paths_with_kind {''add''} [ch])"
  by (cases acc) (auto simp: apply_change_def paths_with_kind_def Let_def split: option.split)

lemma fold_apply_change:
  "fold apply_change chs acc =
     (fst acc \<union> paths_with_kind {''add'', ''edit'', ''rename''} chs,
      snd acc \<union> paths_with_kind {''add''} chs)"
proof (induction chs arbitrary: acc)
  case Nil
  then show ?case by (simp add: paths_with_kind_Nil)
next
  case (Cons ch chs)
  have "fold apply_change (ch # chs) acc = fold apply_change chs (apply_change ch acc)"
    by simp
  also have "\<dots> =
     (fst (apply_change ch acc) \<union> paths_with_kind {''add'', ''edit'', ''rename''} chs,
      snd (apply_change ch acc) \<union> paths_with_kind {''add''} chs)"
    by (rule Cons.IH)
  also have "\<dots> =
     (fst acc \<union> paths_with_kind {''add'', ''edit'', ''rename''} (ch # chs),
      snd acc \<union> paths_with_kind {''add''} (ch # chs))"
    by (simp only: apply_change_step fst_conv snd_conv Un_assoc
          paths_with_kind_Cons [of _ ch chs])
  finally show ?case .
qed

lemma changed_paths_loop_answered:
  "changed_paths_loop (map answered cs) acc =
     Inr (fst acc \<union> (\<Union>c\<in>set cs. paths_with_kind {''add'', ''edit'', ''rename''} (snd c)),
          snd acc \<union> (\<Union>c\<in>set cs. paths_with_kind {''add''} (snd c)))"
proof (induction cs arbitrary: acc)
  case Nil
  then show ?case by simp
next
  case (Cons c cs)
  have "changed_paths_loop (map answered (c # cs)) acc =
        changed_paths_loop (map answered cs) (fold apply_change (snd c) acc)"
    by (simp add: answered_def)
  then show ?case
    by (simp add: Cons.IH fold_apply_change Un_assoc)
qed

text \<open>
  C4. Over commits whose requests are all answered, the changed-paths resolution returns,
  with \<open>created_only\<close> false, the union over the commits of the paths whose change kind is
  add, edit or rename, and with \<open>created_only\<close> true the union over the commits of the paths
  that have an add change. For the commits C1 (adds a.py) and C2 (edits a.py, adds b.md)
  both modes give a.py and b.md; C2 alone with \<open>created_only\<close> true gives b.md only.
\<close>

theorem changed_paths_union:
  "list_changed_paths_for_commits (map answered cs) False =
     Inr (\<Union>c\<in>set cs. paths_with_kind {''add'', ''edit'', ''rename''} (snd c))
   \<and> list_changed_paths_for_commits (map answered cs) True =
     Inr (\<Union>c\<in>set cs. paths_with_kind {''add''} (snd c))
   \<and> list_changed_paths_for_commits (map answered [commit_C1, commit_C2]) True =
     Inr {''a.py'', ''b.md''}
   \<and> list_changed_paths_for_commits (map answered [commit_C1, commit_C2]) False =
     Inr {''a.py'', ''b.md''}
   \<and> list_changed_paths_for_commits (map answered [commit_C2]) True = Inr {''b.md''}"
proof (intro conjI)
  show "list_changed_paths_for_commits (map answered cs) False =
     Inr (\<Union>c\<in>set cs. paths_with_kind {''add'', ''edit'', ''rename''} (snd c))"
    by (simp add: list_changed_paths_for_commits_def changed_paths_loop_answered)
next
  show "list_changed_paths_for_commits (map answered cs) True =
     Inr (\<Union>c\<in>set cs. paths_with_kind {''add''} (snd c))"
    by (simp add: list_changed_paths_for_commits_def changed_paths_loop_answered)
next
  show "list_changed_paths_for_commits (map answered [commit_C1, commit_C2]) True =
     Inr {''a.py'', ''b.md''}"
    by code_simp
next
  show "list_changed_paths_for_commits (map answered [commit_C1, commit_C2]) False =
     Inr {''a.py'', ''b.md''}"
    by code_simp
next
  show "list_changed_paths_for_commits (map answered [commit_C2]) True = Inr {''b.md''}"
    by code_simp
qed

text \<open>The same resolution at C2 alone in the mode that is not restricted to creations: the
  edited a.py is there, as the union at that one commit says.\<close>

theorem changed_paths_union_witness:
  "list_changed_paths_for_commits (map answered [commit_C2]) False = Inr {''a.py'', ''b.md''}
   \<and> paths_with_kind {''add'', ''edit'', ''rename''} (snd commit_C2) = {''a.py'', ''b.md''}"
proof -
  have e: "paths_with_kind {''add'', ''edit'', ''rename''} (snd commit_C2) = {''a.py'', ''b.md''}"
    by code_simp
  from changed_paths_union [of "[commit_C2]"]
  have "list_changed_paths_for_commits (map answered [commit_C2]) False =
          Inr (\<Union>c\<in>set [commit_C2]. paths_with_kind {''add'', ''edit'', ''rename''} (snd c))"
    by (rule conjunct1)
  with e show ?thesis by simp
qed

subsection \<open>One repository\<close>

lemma scan_step_filtered: "filtered_out rp f \<Longrightarrow> scan_step rp f acc = acc"
  by (simp add: scan_step_def)

lemma scan_step_kept:
  "\<not> filtered_out rp f \<Longrightarrow>
     scan_step rp f acc =
       (counter_add (fst acc) (lang_from_ext (ext_from_path (item_path f))) (item_size f),
        snd acc + item_size f)"
  by (simp add: scan_step_def Let_def)

lemma scan_total:
  "snd (fold (scan_step rp) fs acc) =
     snd acc + sum_list (map item_size (filter (\<lambda>f. \<not> filtered_out rp f) fs))"
proof (induction fs arbitrary: acc)
  case Nil
  then show ?case by simp
next
  case (Cons f fs)
  show ?case
  proof (cases "filtered_out rp f")
    case True
    then show ?thesis by (simp add: Cons.IH scan_step_filtered)
  next
    case False
    then show ?thesis by (simp add: Cons.IH scan_step_kept)
  qed
qed

lemma process_repo_no_branch:
  assumes "\<not> truthy (defaultBranch repo)"
  shows "process_repo cfg pn repo st =
     Inr (st\<lparr>per_repo_rows := per_repo_rows st @ [placeholder_row pn (repo_name repo) []]\<rparr>)"
  using assms by (simp add: process_repo_def)

lemma process_repo_zero_total:
  assumes "defaultBranch repo = Some db" and "db \<noteq> []"
    and "recent_paths_of cfg repo = Inr rp"
    and "\<not> files_fail repo"
    and "sum_list (map item_size (filter (\<lambda>f. \<not> filtered_out rp f) (files repo))) = 0"
  shows "process_repo cfg pn repo st =
     Inr (st\<lparr>per_repo_rows := per_repo_rows st @ [placeholder_row pn (repo_name repo) db]\<rparr>)"
proof -
  have "snd (fold (scan_step rp) (files repo) ([], 0)) = 0"
    using assms(5) by (simp add: scan_total)
  with assms(1-4) show ?thesis
    by (simp add: process_repo_def truthy_def Let_def)
qed

lemma process_repo_files_fail:
  assumes "defaultBranch repo = Some db" and "db \<noteq> []"
    and "recent_paths_of cfg repo = Inr rp"
    and "files_fail repo"
  shows "process_repo cfg pn repo st =
     Inr (st\<lparr>stderr := stderr st @ [error_line pn (repo_name repo)]\<rparr>)"
  using assms by (simp add: process_repo_def truthy_def Let_def)

lemma process_repo_filter_error:
  assumes "truthy (defaultBranch repo)" and "recent_paths_of cfg repo = Inl e"
  shows "process_repo cfg pn repo st = Inl e"
  using assms by (auto simp: process_repo_def truthy_def split: option.splits)

lemma recent_paths_no_commits:
  "truthy (since_iso cfg) \<Longrightarrow> commits repo = Some [] \<Longrightarrow> recent_paths_of cfg repo = Inr (Some {})"
  by (simp add: recent_paths_of_def)

lemma recent_paths_no_filter:
  "\<not> truthy (since_iso cfg) \<Longrightarrow> recent_paths_of cfg repo = Inr None"
  by (simp add: recent_paths_of_def)

text \<open>
  C5. A repository without a default-branch reference adds exactly one row, with empty
  language and zero bytes, and leaves both tenant tallies as they are. A repository with a
  branch, whose filter is resolved and whose file listing ends without failure, and whose
  files that pass the filter have a byte total of zero, does the same: one row with empty
  language and zero bytes, and nothing else of the state changes.
\<close>

theorem placeholder_row_cases:
  "(\<not> truthy (defaultBranch repo) \<longrightarrow>
      process_repo cfg pn repo st =
        Inr (st\<lparr>per_repo_rows := per_repo_rows st @
               [\<lparr>project = pn, repository = repo_name repo, default_branch = [],
                 language = [], bytes = 0\<rparr>]\<rparr>))
   \<and> (defaultBranch repo = Some db \<and> db \<noteq> [] \<and> recent_paths_of cfg repo = Inr rp
        \<and> \<not> files_fail repo
        \<and> sum_list (map item_size (filter (\<lambda>f. \<not> filtered_out rp f) (files repo))) = 0 \<longrightarrow>
      process_repo cfg pn repo st =
        Inr (st\<lparr>per_repo_rows := per_repo_rows st @
               [\<lparr>project = pn, repository = repo_name repo, default_branch = db,
                 language = [], bytes = 0\<rparr>]\<rparr>))"
  using process_repo_no_branch [of repo cfg pn st]
    process_repo_zero_total [of repo db cfg rp pn st]
  by (simp add: placeholder_row_def)

theorem placeholder_row_cases_witness:
  "\<not> truthy (defaultBranch branchless_repo)
   \<and> process_repo (scenario_config False) ''P'' branchless_repo initial_state =
       Inr (initial_state\<lparr>per_repo_rows := per_repo_rows initial_state @
               [\<lparr>project = ''P'', repository = repo_name branchless_repo, default_branch = [],
                 language = [], bytes = 0\<rparr>]\<rparr>)
   \<and> defaultBranch hollow_repo = Some ''refs/heads/main''
   \<and> recent_paths_of (scenario_config False) hollow_repo = Inr None
   \<and> \<not> files_fail hollow_repo
   \<and> sum_list (map item_size (filter (\<lambda>f. \<not> filtered_out None f) (files hollow_repo))) = 0
   \<and> process_repo (scenario_config False) ''P'' hollow_repo initial_state =
       Inr (initial_state\<lparr>per_repo_rows := per_repo_rows initial_state @
               [\<lparr>project = ''P'', repository = repo_name hollow_repo,
                 default_branch = ''refs/heads/main'', language = [], bytes = 0\<rparr>]\<rparr>)"
proof -
  have h1: "\<not> truthy (defaultBranch branchless_repo)"
    by (simp add: branchless_repo_def truthy_def)
  have h2: "defaultBranch hollow_repo = Some ''refs/heads/main'' \<and> ''refs/heads/main'' \<noteq> []
      \<and> recent_paths_of (scenario_config False) hollow_repo = Inr None
      \<and> \<not> files_fail hollow_repo
      \<and> sum_list (map item_size (filter (\<lambda>f. \<not> filtered_out None f) (files hollow_repo))) = 0"
    by (simp add: hollow_repo_def scenario_config_def recent_paths_of_def truthy_def
          filtered_out_def)
  note a = placeholder_row_cases [where repo = branchless_repo and cfg = "scenario_config False"
      and pn = "''P''" and st = initial_state]
  note b = placeholder_row_cases [where repo = hollow_repo and cfg = "scenario_config False"
      and pn = "''P''" and st = initial_state and db = "''refs/heads/main''" and rp = None]
  from a h1 have c1:
    "process_repo (scenario_config False) ''P'' branchless_repo initial_state =
       Inr (initial_state\<lparr>per_repo_rows := per_repo_rows initial_state @
               [\<lparr>project = ''P'', repository = repo_name branchless_repo, default_branch = [],
                 language = [], bytes = 0\<rparr>]\<rparr>)"
    by blast
  from b h2 have c2:
    "process_repo (scenario_config False) ''P'' hollow_repo initial_state =
       Inr (initial_state\<lparr>per_repo_rows := per_repo_rows initial_state @
               [\<lparr>project = ''P'', repository = repo_name hollow_repo,
                 default_branch = ''refs/heads/main'', language = [], bytes = 0\<rparr>]\<rparr>)"
    by blast
  from h1 h2 c1 c2 show ?thesis by blast
qed

text \<open>
  C3, as the code has it. With a date configured and no commit listed since that date, the
  filter is the empty set and not \<open>None\<close>. A repository whose filter is resolved to a set
  that holds the path of none of its files adds no row with a language; it adds exactly one
  row, the placeholder with empty language and zero bytes, and updates no tenant tally.
\<close>

theorem recency_filter_no_match:
  "(truthy (since_iso cfg) \<and> commits repo = Some [] \<longrightarrow> recent_paths_of cfg repo = Inr (Some {}))
   \<and> (truthy (since_iso cfg) \<and> defaultBranch repo = Some db \<and> db \<noteq> []
        \<and> recent_paths_of cfg repo = Inr (Some s)
        \<and> (\<forall>f\<in>set (files repo). item_path f \<notin> s) \<and> \<not> files_fail repo \<longrightarrow>
      process_repo cfg pn repo st =
        Inr (st\<lparr>per_repo_rows := per_repo_rows st @
               [\<lparr>project = pn, repository = repo_name repo, default_branch = db,
                 language = [], bytes = 0\<rparr>]\<rparr>))"
proof (intro conjI impI)
  assume "truthy (since_iso cfg) \<and> commits repo = Some []"
  then show "recent_paths_of cfg repo = Inr (Some {})"
    by (simp add: recent_paths_no_commits)
next
  assume a: "truthy (since_iso cfg) \<and> defaultBranch repo = Some db \<and> db \<noteq> []
        \<and> recent_paths_of cfg repo = Inr (Some s)
        \<and> (\<forall>f\<in>set (files repo). item_path f \<notin> s) \<and> \<not> files_fail repo"
  then have "filter (\<lambda>f. \<not> filtered_out (Some s) f) (files repo) = []"
    by (auto simp: filtered_out_def filter_empty_conv)
  then have "sum_list (map item_size (filter (\<lambda>f. \<not> filtered_out (Some s) f) (files repo))) = 0"
    by simp
  with a show "process_repo cfg pn repo st =
        Inr (st\<lparr>per_repo_rows := per_repo_rows st @
               [\<lparr>project = pn, repository = repo_name repo, default_branch = db,
                 language = [], bytes = 0\<rparr>]\<rparr>)"
    using process_repo_zero_total [of repo db cfg "Some s" pn st]
    by (simp add: placeholder_row_def)
qed

theorem recency_filter_no_match_witness:
  "truthy (since_iso recency_config) \<and> commits stale_repo = Some []
   \<and> defaultBranch stale_repo = Some ''refs/heads/main''
   \<and> recent_paths_of recency_config stale_repo = Inr (Some {})
   \<and> \<not> files_fail stale_repo
   \<and> process_repo recency_config ''P'' stale_repo initial_state =
       Inr (initial_state\<lparr>per_repo_rows := per_repo_rows initial_state @
               [\<lparr>project = ''P'', repository = repo_name stale_repo,
                 default_branch = ''refs/heads/main'', language = [], bytes = 0\<rparr>]\<rparr>)"
proof -
  have h1: "truthy (since_iso recency_config) \<and> commits stale_repo = Some []"
    by (simp add: recency_config_def stale_repo_def truthy_def)
  have h2: "defaultBranch stale_repo = Some ''refs/heads/main'' \<and> ''refs/heads/main'' \<noteq> []
      \<and> \<not> files_fail stale_repo \<and> (\<forall>f\<in>set (files stale_repo). item_path f \<notin> {})"
    by (simp add: stale_repo_def)
  note t = recency_filter_no_match [where cfg = recency_config and repo = stale_repo
      and db = "''refs/heads/main''" and s = "{}" and pn = "''P''" and st = initial_state]
  from t h1 have r: "recent_paths_of recency_config stale_repo = Inr (Some {})" by blast
  from t h1 h2 r have
    "process_repo recency_config ''P'' stale_repo initial_state =
       Inr (initial_state\<lparr>per_repo_rows := per_repo_rows initial_state @
               [\<lparr>project = ''P'', repository = repo_name stale_repo,
                 default_branch = ''refs/heads/main'', language = [], bytes = 0\<rparr>]\<rparr>)"
    by blast
  with h1 h2 r show ?thesis by blast
qed

text \<open>
  C3 as the claim is written says that the placeholder is never emitted under such a
  filter. At a repository with one file of 100 bytes and no commit since the date, the
  repository-level report holds the placeholder row.
\<close>

theorem recency_filter_placeholder_counterexample:
  "main recency_config (Some [\<lparr>proj_name = ''P'', repos = Some [stale_repo]\<rparr>]) =
     Inr \<lparr>exit_status = 0,
          repo_csv = Some ([''project'', ''repository'', ''default_branch'', ''language'', ''bytes''],
                           [\<lparr>project = ''P'', repository = ''R'',
                             default_branch = ''refs/heads/main'', language = '''', bytes = 0\<rparr>]),
          tenant_csv = Some ([''language'', ''bytes'', ''percent_all_files''], []),
          code_only_summary = [],
          err_stream = []\<rparr>"
  by code_simp

subsection \<open>Failures of the listing calls\<close>

text \<open>
  C2. Only the file listing runs inside the \<^verbatim>\<open>try\<close> of lines 227 to 238 (the lemma
  \<open>process_repo_files_fail\<close>: the repository adds one line to the error stream and nothing
  else, and the loop goes on). The commit listing and the changed-paths resolution of lines
  215 to 220 run outside it (the lemma \<open>process_repo_filter_error\<close>). With a date
  configured and a first repository whose commit listing is answered with a non-success
  status, the run ends with \<^verbatim>\<open>HTTPError\<close>: the second repository is not processed and
  no report is written.
\<close>

theorem commit_listing_failure_aborts:
  "main recency_config (Some [\<lparr>proj_name = ''P'', repos = Some [broken_repo, scenario_repo]\<rparr>]) =
     Inl HTTPError"
  by code_simp

theorem commit_listing_failure_aborts_witness:
  "truthy (org_url recency_config) \<and> truthy (pat recency_config)
   \<and> truthy (since_iso recency_config) \<and> commits broken_repo = None
   \<and> main recency_config (Some [\<lparr>proj_name = ''P'', repos = Some [broken_repo, scenario_repo]\<rparr>]) =
     Inl HTTPError"
proof -
  have "truthy (org_url recency_config) \<and> truthy (pat recency_config)
   \<and> truthy (since_iso recency_config) \<and> commits broken_repo = None"
    by (simp add: recency_config_def broken_repo_def truthy_def)
  with commit_listing_failure_aborts show ?thesis by (simp only: simp_thms)
qed

subsection \<open>The non-code test\<close>

text \<open>
  C1, at the scenario with the flag for excluding non-code set: the first row with a
  language (Python, 100 bytes) reaches the condition of line 258, whose set display holds
  a set; the run ends with \<^verbatim>\<open>TypeError\<close> and writes no report and no summary.
\<close>

theorem exclude_non_code_raises:
  "main (scenario_config True) scenario_tenant = Inl TypeError"
  by code_simp

theorem exclude_non_code_raises_witness:
  "truthy (org_url (scenario_config True)) \<and> truthy (pat (scenario_config True))
   \<and> exclude_non_code (scenario_config True)
   \<and> main (scenario_config True) scenario_tenant = Inl TypeError"
proof -
  have "truthy (org_url (scenario_config True)) \<and> truthy (pat (scenario_config True))
   \<and> exclude_non_code (scenario_config True)"
    by (simp add: scenario_config_def truthy_def)
  with exclude_non_code_raises show ?thesis by (simp only: simp_thms)
qed

subsection \<open>Counters and the order of the most common entries\<close>

lemma keys_counter_add:
  "map fst (counter_add c k v) = (if k \<in> set (map fst c) then map fst c else map fst c @ [k])"
  by (induction c) force+

lemma counter_get_add:
  "counter_get (counter_add c k v) k' = counter_get c k' + (if k' = k then v else 0)"
  by (induction c) (auto simp: counter_get_def)

lemma sum_counter_add:
  "sum_list (map snd (counter_add c k v)) = sum_list (map snd c) + v"
  by (induction c) auto

lemma tally_from_Nil: "tally_from c [] = c"
  by (simp add: tally_from_def)

lemma tally_from_Cons: "tally_from c (e # evs) = tally_from (counter_add c (fst e) (snd e)) evs"
  by (simp add: tally_from_def)

lemma tally_from_append: "tally_from c (xs @ ys) = tally_from (tally_from c xs) ys"
  by (simp add: tally_from_def)

lemma set_first_seen: "set (first_seen xs) = set xs"
  by (induction xs) auto

lemma distinct_first_seen: "distinct (first_seen xs)"
  by (induction xs) (auto simp: set_first_seen)

lemma keys_tally_from:
  "map fst (tally_from c evs) =
     map fst c @ filter (\<lambda>k. k \<notin> set (map fst c)) (first_seen (map fst evs))"
proof (induction evs arbitrary: c)
  case Nil
  then show ?case by (simp add: tally_from_Nil)
next
  case (Cons e evs)
  show ?case
  proof (cases "fst e \<in> set (map fst c)")
    case True
    then have "filter (\<lambda>k. k \<notin> set (map fst c)) (filter (\<lambda>y. y \<noteq> fst e) (first_seen (map fst evs)))
        = filter (\<lambda>k. k \<notin> set (map fst c)) (first_seen (map fst evs))"
      by (auto intro: filter_cong)
    with True show ?thesis
      by (simp add: tally_from_Cons Cons.IH keys_counter_add)
  next
    case False
    have "filter (\<lambda>k. k \<notin> set (map fst c @ [fst e])) (first_seen (map fst evs))
        = filter (\<lambda>k. k \<notin> set (map fst c)) (filter (\<lambda>y. y \<noteq> fst e) (first_seen (map fst evs)))"
      by (auto intro: filter_cong)
    with False show ?thesis
      by (simp add: tally_from_Cons Cons.IH keys_counter_add)
  qed
qed

lemma keys_tally_of: "map fst (tally_from [] evs) = first_seen (map fst evs)"
  by (simp add: keys_tally_from)

lemma counter_get_tally_from:
  "counter_get (tally_from c evs) L =
     counter_get c L + sum_list (map snd (filter (\<lambda>e. fst e = L) evs))"
  by (induction evs arbitrary: c) (auto simp: tally_from_Nil tally_from_Cons counter_get_add)

lemma sum_tally_from:
  "sum_list (map snd (tally_from c evs)) = sum_list (map snd c) + sum_list (map snd evs)"
  by (induction evs arbitrary: c) (auto simp: tally_from_Nil tally_from_Cons sum_counter_add)

lemma counter_get_distinct:
  "distinct (map fst c) \<Longrightarrow> (k, n) \<in> set c \<Longrightarrow> counter_get c k = n"
  by (simp add: counter_get_def)

lemma sorted_most_common: "sorted_wrt (\<lambda>a b. snd a \<ge> snd b) (most_common c)"
proof -
  have "sorted (map (\<lambda>e. - snd e) (most_common c))"
    unfolding most_common_def by (rule sorted_sort_key)
  then show ?thesis
    by (simp add: sorted_map sorted_wrt_iff_nth_less)
qed

lemma most_common_stable:
  "filter (\<lambda>e. snd e = k) (most_common c) = filter (\<lambda>e. snd e = k) c"
proof -
  have "filter (\<lambda>e. - snd e = - k) (sort_key (\<lambda>e. - snd e) c) = filter (\<lambda>e. - snd e = - k) c"
    by (rule sort_key_stable)
  then show ?thesis by (simp add: most_common_def)
qed

lemma set_most_common: "set (most_common c) = set c"
  by (simp add: most_common_def)

lemma distinct_keys_most_common:
  "distinct (map fst c) \<Longrightarrow> distinct (map fst (most_common c))"
  by (simp add: distinct_map most_common_def)


lemma tenant_rows_Inr:
  "tenant_rows tot es = Inr rows \<Longrightarrow>
   rows = map (\<lambda>e. \<lparr>t_language = fst e, t_bytes = snd e, percent_all_files = Percent (snd e) tot\<rparr>) es"
  by (induction es arbitrary: rows)
     (auto split: sum.splits dest: rounded_percent_of_Inr)

lemma summary_lines_Inr:
  "summary_lines tot es = Inr ls \<Longrightarrow> ls = map (\<lambda>e. (fst e, Percent (snd e) tot)) es"
  by (induction es arbitrary: ls)
     (auto split: sum.splits dest: percent_of_Inr)



subsection \<open>The rows of a repository and the tallies\<close>

lemma code_only_test_eq:
  "code_only_test cfg lang = (if exclude_non_code cfg then Inl TypeError else Inr True)"
  by (simp add: code_only_test_def set_display_def)

lemma emit_rows_eq:
  "emit_rows cfg pn rn db lb st =
     (if exclude_non_code cfg \<and> lb \<noteq> [] then Inl TypeError
      else Inr (st\<lparr>per_repo_rows := per_repo_rows st @
                      map (\<lambda>e. \<lparr>project = pn, repository = rn, default_branch = db,
                                 language = fst e, bytes = snd e\<rparr>) lb,
                   tenant_totals := tally_from (tenant_totals st) lb,
                   tenant_totals_code_only :=
                     (if exclude_non_code cfg then tenant_totals_code_only st
                      else tally_from (tenant_totals_code_only st) lb)\<rparr>))"
proof (induction lb arbitrary: st)
  case Nil
  then show ?case by (simp add: tally_from_Nil)
next
  case (Cons e lb)
  obtain lang b where e: "e = (lang, b)" by (cases e)
  show ?case
  proof (cases "exclude_non_code cfg")
    case True
    then show ?thesis by (simp add: e code_only_test_eq)
  next
    case False
    then show ?thesis
      by (simp add: e code_only_test_eq Cons.IH tally_from_Cons Let_def)
  qed
qed

lemma scan_fst:
  "fst (fold (scan_step rp) fs acc) =
     tally_from (fst acc)
       (map (\<lambda>f. (lang_from_ext (ext_from_path (item_path f)), item_size f))
            (filter (\<lambda>f. \<not> filtered_out rp f) fs))"
proof (induction fs arbitrary: acc)
  case Nil
  then show ?case by (simp add: tally_from_Nil)
next
  case (Cons f fs)
  show ?case
  proof (cases "filtered_out rp f")
    case True
    then show ?thesis by (simp add: Cons.IH scan_step_filtered)
  next
    case False
    then show ?thesis by (simp add: Cons.IH scan_step_kept tally_from_Cons)
  qed
qed

lemma scan_keys_nonempty:
  "[] \<notin> set (map fst (fst (fold (scan_step rp) fs ([], 0))))"
proof -
  have "set (map fst (fst (fold (scan_step rp) fs ([], 0)))) \<subseteq> range lang_from_ext"
    by (auto simp: scan_fst keys_tally_of set_first_seen)
  then show ?thesis using lang_from_ext_nonempty by (metis imageE subsetD)
qed

lemma scan_sum:
  "sum_list (map snd (fst (fold (scan_step rp) fs ([], 0)))) = snd (fold (scan_step rp) fs ([], 0))"
  by (simp add: scan_fst scan_total sum_tally_from comp_def)

lemma lang_rows_append: "lang_rows (xs @ ys) = lang_rows xs @ lang_rows ys"
  by (simp add: lang_rows_def)

lemma lang_rows_placeholder: "lang_rows [placeholder_row pn rn db] = []"
  by (simp add: lang_rows_def placeholder_row_def)

lemma lang_rows_emitted:
  "[] \<notin> set (map fst lb) \<Longrightarrow>
   lang_rows (map (\<lambda>e. \<lparr>project = pn, repository = rn, default_branch = db,
                        language = fst e, bytes = snd e\<rparr>) lb) = lb"
  by (induction lb) (auto simp: lang_rows_def)

lemma report_inv_initial: "report_inv cfg initial_state"
  by (simp add: report_inv_def initial_state_def lang_rows_def tally_from_Nil)

lemma report_inv_placeholder:
  "report_inv cfg st \<Longrightarrow>
   report_inv cfg (st\<lparr>per_repo_rows := per_repo_rows st @ [placeholder_row pn rn db]\<rparr>)"
  by (auto simp: report_inv_def lang_rows_append lang_rows_placeholder)

lemma report_inv_stderr:
  "report_inv cfg st \<Longrightarrow> report_inv cfg (st\<lparr>stderr := stderr st @ [l]\<rparr>)"
  by (simp add: report_inv_def)

lemma nonzero_sum_entry:
  "sum_list (map snd lb) \<noteq> (0::int) \<Longrightarrow> \<exists>e\<in>set lb. snd e \<noteq> 0"
  by (induction lb) auto

lemma report_inv_emit:
  assumes inv: "report_inv cfg st"
    and keys: "[] \<notin> set (map fst lb)"
    and nz: "sum_list (map snd lb) \<noteq> 0"
    and ok: "emit_rows cfg pn rn db lb st = Inr st'"
  shows "report_inv cfg st'"
proof -
  from nz have ne: "lb \<noteq> []" by auto
  with ok have flag: "\<not> exclude_non_code cfg"
    by (auto simp: emit_rows_eq split: if_splits)
  from nonzero_sum_entry [OF nz] obtain e where e: "e \<in> set lb" "snd e \<noteq> 0"
    by blast
  let ?new = "map (\<lambda>e. \<lparr>project = pn, repository = rn, default_branch = db,
                        language = fst e, bytes = snd e\<rparr>) lb"
  from ok flag have st': "st' = st\<lparr>per_repo_rows := per_repo_rows st @ ?new,
                   tenant_totals := tally_from (tenant_totals st) lb,
                   tenant_totals_code_only := tally_from (tenant_totals_code_only st) lb\<rparr>"
    by (simp add: emit_rows_eq)
  have rows: "lang_rows (per_repo_rows st') = lang_rows (per_repo_rows st) @ lb"
    by (simp add: st' lang_rows_append lang_rows_emitted [OF keys])
  have nzrow: "\<exists>r\<in>set (per_repo_rows st'). bytes r \<noteq> 0"
  proof -
    let ?r = "\<lparr>project = pn, repository = rn, default_branch = db,
               language = fst e, bytes = snd e\<rparr>"
    from e(1) have "?r \<in> set (per_repo_rows st')" by (simp add: st')
    moreover from e(2) have "bytes ?r \<noteq> 0" by simp
    ultimately show ?thesis by blast
  qed
  from inv flag have tt: "tenant_totals st = tally_from [] (lang_rows (per_repo_rows st))"
    and tc: "tenant_totals_code_only st = tenant_totals st"
    by (simp_all add: report_inv_def)
  show ?thesis
    unfolding report_inv_def
    using flag nzrow rows by (simp add: st' tt tc tally_from_append)
qed

lemma changed_paths_loop_error:
  "changed_paths_loop cs acc = Inl e \<Longrightarrow> e = HTTPError"
  by (induction cs arbitrary: acc) (auto split: option.splits)

lemma recent_paths_of_error:
  "recent_paths_of cfg repo = Inl e \<Longrightarrow> e = HTTPError"
  by (auto simp: recent_paths_of_def list_changed_paths_for_commits_def
        split: option.splits if_splits sum.splits dest: changed_paths_loop_error)

lemma process_repo_error:
  "process_repo cfg pn repo st = Inl e \<Longrightarrow> e = HTTPError \<or> e = TypeError"
  by (auto simp: process_repo_def emit_rows_eq Let_def
        split: option.splits if_splits sum.splits dest: recent_paths_of_error)

subsection \<open>The whole run\<close>

lemma process_repo_emit:
  assumes "defaultBranch repo = Some db" and "db \<noteq> []"
    and "recent_paths_of cfg repo = Inr rp"
    and "\<not> files_fail repo"
    and "snd (fold (scan_step rp) (files repo) ([], 0)) \<noteq> 0"
  shows "process_repo cfg pn repo st =
     emit_rows cfg pn (repo_name repo) db (fst (fold (scan_step rp) (files repo) ([], 0))) st"
  using assms by (simp add: process_repo_def truthy_def Let_def)

lemma process_repo_inv:
  assumes inv: "report_inv cfg st" and ok: "process_repo cfg pn repo st = Inr st'"
  shows "report_inv cfg st'"
proof (cases "truthy (defaultBranch repo)")
  case False
  with ok inv show ?thesis
    by (auto simp: process_repo_no_branch intro: report_inv_placeholder)
next
  case True
  then obtain db where db: "defaultBranch repo = Some db" "db \<noteq> []"
    by (auto simp: truthy_def split: option.splits)
  show ?thesis
  proof (cases "recent_paths_of cfg repo")
    case (Inl e)
    with True ok show ?thesis by (simp add: process_repo_filter_error)
  next
    case (Inr rp)
    let ?acc = "fold (scan_step rp) (files repo) ([], 0)"
    show ?thesis
    proof (cases "files_fail repo")
      case True
      with db Inr ok inv show ?thesis
        by (auto simp: process_repo_files_fail intro: report_inv_stderr)
    next
      case nofail: False
      show ?thesis
      proof (cases "snd ?acc = 0")
        case True
        then have "sum_list (map item_size (filter (\<lambda>f. \<not> filtered_out rp f) (files repo))) = 0"
          by (simp add: scan_total)
        with db Inr nofail ok inv show ?thesis
          by (auto simp: process_repo_zero_total intro: report_inv_placeholder)
      next
        case False
        with db Inr nofail ok
        have em: "emit_rows cfg pn (repo_name repo) db (fst ?acc) st = Inr st'"
          by (simp add: process_repo_emit)
        from False have nz: "sum_list (map snd (fst ?acc)) \<noteq> 0"
          by (simp add: scan_sum)
        show ?thesis
          by (rule report_inv_emit [OF inv scan_keys_nonempty nz em])
      qed
    qed
  qed
qed

lemma repos_loop_inv:
  "report_inv cfg st \<Longrightarrow> repos_loop cfg pn rs st = Inr st' \<Longrightarrow> report_inv cfg st'"
proof (induction rs arbitrary: st)
  case Nil
  then show ?case by simp
next
  case (Cons r rs)
  then show ?case
    by (auto split: sum.splits dest: process_repo_inv)
qed

lemma projects_loop_inv:
  "report_inv cfg st \<Longrightarrow> projects_loop cfg ps st = Inr st' \<Longrightarrow> report_inv cfg st'"
proof (induction ps arbitrary: st)
  case Nil
  then show ?case by simp
next
  case (Cons p ps)
  then show ?case
    by (auto split: sum.splits option.splits dest: repos_loop_inv)
qed

lemma repos_loop_error:
  "repos_loop cfg pn rs st = Inl e \<Longrightarrow> e = HTTPError \<or> e = TypeError"
proof (induction rs arbitrary: st)
  case Nil
  then show ?case by simp
next
  case (Cons r rs)
  then show ?case
    by (auto split: sum.splits dest: process_repo_error)
qed

lemma projects_loop_error:
  "projects_loop cfg ps st = Inl e \<Longrightarrow> e = HTTPError \<or> e = TypeError"
proof (induction ps arbitrary: st)
  case Nil
  then show ?case by simp
next
  case (Cons p ps)
  then show ?case
    by (auto split: sum.splits option.splits dest: repos_loop_error)
qed

lemma write_reports_Inr:
  assumes "write_reports st = Inr out"
  shows "out =
     \<lparr>exit_status = 0,
      repo_csv = Some ([''project'', ''repository'', ''default_branch'',
                        ''language'', ''bytes''], per_repo_rows st),
      tenant_csv = Some ([''language'', ''bytes'', ''percent_all_files''],
        map (\<lambda>e. \<lparr>t_language = fst e, t_bytes = snd e,
                   percent_all_files = Percent (snd e) (sum_or_1 (tenant_totals st))\<rparr>)
            (most_common (tenant_totals st))),
      code_only_summary =
        map (\<lambda>e. (fst e, Percent (snd e) (sum_or_1 (tenant_totals_code_only st))))
            (most_common (tenant_totals_code_only st)),
      err_stream = stderr st\<rparr>"
  using assms
  by (auto simp: write_reports_def split: sum.splits
        dest!: tenant_rows_Inr summary_lines_Inr)



text \<open>A run that ends with \<^verbatim>\<open>OverflowError\<close> has completed its loops: the exception
  comes from the part after them, where line 263 has written the repository-level report.\<close>

lemma main_overflow_after_loops:
  assumes "main cfg tenant = Inl OverflowError"
  shows "\<exists>ps st. tenant = Some ps \<and> projects_loop cfg ps initial_state = Inr st
           \<and> write_reports st = Inl OverflowError"
  using assms
  by (auto simp: main_def split: if_splits option.splits sum.splits
        dest: projects_loop_error)

lemma main_reports:
  assumes "main cfg tenant = Inr out" and "repo_csv out = Some (h, rrows)"
  shows "\<exists>st. report_inv cfg st \<and> per_repo_rows st = rrows \<and> write_reports st = Inr out"
proof -
  from assms obtain ps where t: "tenant = Some ps"
    and c: "truthy (org_url cfg)" "truthy (pat cfg)"
    by (auto simp: main_def split: if_splits option.splits)
  with assms(1) obtain st where st: "projects_loop cfg ps initial_state = Inr st"
    and w: "write_reports st = Inr out"
    by (auto simp: main_def split: sum.splits)
  from projects_loop_inv [OF report_inv_initial st] have "report_inv cfg st" .
  moreover from write_reports_Inr [OF w] assms(2) have "per_repo_rows st = rrows"
    by simp
  ultimately show ?thesis using w by blast
qed

lemma keys_filter_by_count:
  "distinct (map fst c) \<Longrightarrow>
   map fst (filter (\<lambda>e. snd e = k) c) = filter (\<lambda>L. counter_get c L = k) (map fst c)"
proof (induction c)
  case Nil
  then show ?case by simp
next
  case (Cons a c)
  obtain l n where a: "a = (l, n)" by (cases a)
  from Cons.prems a have l: "l \<notin> set (map fst c)" and d: "distinct (map fst c)" by auto
  have "filter (\<lambda>L. counter_get ((l, n) # c) L = k) (map fst c)
      = filter (\<lambda>L. counter_get c L = k) (map fst c)"
    using l by (intro filter_cong) (auto simp: counter_get_def)
  with Cons.IH [OF d] show ?case
    by (simp add: a counter_get_def)
qed

lemma lang_rows_sum:
  "L \<noteq> [] \<Longrightarrow>
   sum_list (map snd (filter (\<lambda>e. fst e = L) (lang_rows rows))) =
   sum_list (map bytes (filter (\<lambda>r. language r = L) rows))"
  by (induction rows) (auto simp: lang_rows_def)

lemma keys_lang_rows:
  "map fst (lang_rows rows) = map language (filter (\<lambda>r. language r \<noteq> []) rows)"
  by (simp add: lang_rows_def comp_def)

lemma distinct_tally: "distinct (map fst (tally_from [] evs))"
  by (simp add: keys_tally_of distinct_first_seen)

lemma counter_get_Nil: "counter_get [] L = 0"
  by (simp add: counter_get_def)

lemma counter_get_tally_rows:
  "L \<noteq> [] \<Longrightarrow>
   counter_get (tally_from [] (lang_rows rows)) L =
   sum_list (map bytes (filter (\<lambda>r. language r = L) rows))"
  by (simp add: counter_get_tally_from lang_rows_sum counter_get_Nil)

lemma main_tenant_rows:
  assumes "main cfg tenant = Inr out" and "repo_csv out = Some (h1, rrows)"
    and "tenant_csv out = Some (h2, trows)"
  shows "trows =
     map (\<lambda>e. \<lparr>t_language = fst e, t_bytes = snd e,
                percent_all_files = Percent (snd e) (sum_or_1 (tally_from [] (lang_rows rrows)))\<rparr>)
         (most_common (tally_from [] (lang_rows rrows)))"
proof -
  from main_reports [OF assms(1,2)] obtain st where inv: "report_inv cfg st"
    and r: "per_repo_rows st = rrows" and w: "write_reports st = Inr out" by blast
  from inv r have "tenant_totals st = tally_from [] (lang_rows rrows)"
    by (simp add: report_inv_def)
  with write_reports_Inr [OF w] assms(3) show ?thesis by simp
qed

lemma tie_run:
  "main (scenario_config False) (Some [\<lparr>proj_name = ''P'', repos = Some [tie_repo]\<rparr>]) = Inr tie_output"
  by code_simp


text \<open>
  C8. In a run that writes its reports, the tenant-level rows are in descending order of
  byte count, and the rows that have the same byte count \<open>k\<close> are in the order in which
  their languages were first added to the tenant tally, which is the order in which the
  languages first occur in the rows of the repository-level report. The rows are a function
  of the input: the same input gives the same rows in the same order.
\<close>

theorem tenant_rows_order:
  "main cfg tenant = Inr out \<and> repo_csv out = Some (h1, rrows)
     \<and> tenant_csv out = Some (h2, trows) \<longrightarrow>
   sorted_wrt (\<lambda>a b. t_bytes a \<ge> t_bytes b) trows
   \<and> (\<forall>k. map t_language (filter (\<lambda>t. t_bytes t = k) trows) =
          filter (\<lambda>L. sum_list (map bytes (filter (\<lambda>r. language r = L) rrows)) = k)
                 (first_seen (map language (filter (\<lambda>r. language r \<noteq> []) rrows))))"
proof (intro impI)
  assume a: "main cfg tenant = Inr out \<and> repo_csv out = Some (h1, rrows)
     \<and> tenant_csv out = Some (h2, trows)"
  let ?tt = "tally_from [] (lang_rows rrows)"
  let ?mk = "\<lambda>e. \<lparr>t_language = fst e, t_bytes = snd e,
                percent_all_files = Percent (snd e) (sum_or_1 ?tt)\<rparr>"
  from a have tr: "trows = map ?mk (most_common ?tt)"
    by (intro main_tenant_rows) auto
  have s: "sorted_wrt (\<lambda>a b. t_bytes a \<ge> t_bytes b) trows"
    using sorted_most_common [of ?tt] by (simp add: tr sorted_wrt_map)
  have t: "map t_language (filter (\<lambda>t. t_bytes t = k) trows) =
          filter (\<lambda>L. sum_list (map bytes (filter (\<lambda>r. language r = L) rrows)) = k)
                 (first_seen (map language (filter (\<lambda>r. language r \<noteq> []) rrows)))" for k
  proof -
    have "map t_language (filter (\<lambda>t. t_bytes t = k) trows)
        = map fst (filter (\<lambda>e. snd e = k) (most_common ?tt))"
      by (simp add: tr filter_map comp_def)
    also have "\<dots> = map fst (filter (\<lambda>e. snd e = k) ?tt)"
      by (simp only: most_common_stable)
    also have "\<dots> = filter (\<lambda>L. counter_get ?tt L = k) (map fst ?tt)"
      by (rule keys_filter_by_count [OF distinct_tally])
    also have "map fst ?tt = first_seen (map language (filter (\<lambda>r. language r \<noteq> []) rrows))"
      by (simp add: keys_tally_of keys_lang_rows)
    also have "filter (\<lambda>L. counter_get ?tt L = k)
                 (first_seen (map language (filter (\<lambda>r. language r \<noteq> []) rrows)))
        = filter (\<lambda>L. sum_list (map bytes (filter (\<lambda>r. language r = L) rrows)) = k)
                 (first_seen (map language (filter (\<lambda>r. language r \<noteq> []) rrows)))"
      by (intro filter_cong refl) (auto simp: set_first_seen counter_get_tally_rows)
    finally show ?thesis .
  qed
  from s t show "sorted_wrt (\<lambda>a b. t_bytes a \<ge> t_bytes b) trows
   \<and> (\<forall>k. map t_language (filter (\<lambda>t. t_bytes t = k) trows) =
          filter (\<lambda>L. sum_list (map bytes (filter (\<lambda>r. language r = L) rrows)) = k)
                 (first_seen (map language (filter (\<lambda>r. language r \<noteq> []) rrows))))"
    by blast
qed

theorem tenant_rows_order_witness:
  "main (scenario_config False) (Some [\<lparr>proj_name = ''P'', repos = Some [tie_repo]\<rparr>]) =
     Inr tie_output
   \<and> repo_csv tie_output = Some (repo_header, tie_repo_rows)
   \<and> tenant_csv tie_output = Some (tenant_header, tie_tenant_rows)
   \<and> sorted_wrt (\<lambda>a b. t_bytes a \<ge> t_bytes b) tie_tenant_rows
   \<and> map t_language (filter (\<lambda>t. t_bytes t = 10) tie_tenant_rows) = [''Python'', ''Markdown'']
   \<and> first_seen (map language (filter (\<lambda>r. language r \<noteq> []) tie_repo_rows)) =
       [''Python'', ''Markdown'', ''Go'']"
proof -
  have h: "main (scenario_config False) (Some [\<lparr>proj_name = ''P'', repos = Some [tie_repo]\<rparr>]) =
     Inr tie_output
   \<and> repo_csv tie_output = Some (repo_header, tie_repo_rows)
   \<and> tenant_csv tie_output = Some (tenant_header, tie_tenant_rows)"
    using tie_run by (simp add: tie_output_def)
  note t = tenant_rows_order [where cfg = "scenario_config False"
      and tenant = "Some [\<lparr>proj_name = ''P'', repos = Some [tie_repo]\<rparr>]"
      and out = tie_output and ?h1.0 = repo_header and rrows = tie_repo_rows
      and ?h2.0 = tenant_header and trows = tie_tenant_rows]
  from t h have s: "sorted_wrt (\<lambda>a b. t_bytes a \<ge> t_bytes b) tie_tenant_rows" by blast
  from t h have "map t_language (filter (\<lambda>t. t_bytes t = 10) tie_tenant_rows) =
          filter (\<lambda>L. sum_list (map bytes (filter (\<lambda>r. language r = L) tie_repo_rows)) = 10)
                 (first_seen (map language (filter (\<lambda>r. language r \<noteq> []) tie_repo_rows)))"
    by blast
  moreover have "filter (\<lambda>L. sum_list (map bytes (filter (\<lambda>r. language r = L) tie_repo_rows)) = 10)
                 (first_seen (map language (filter (\<lambda>r. language r \<noteq> []) tie_repo_rows)))
      = [''Python'', ''Markdown'']"
    by code_simp
  ultimately have e: "map t_language (filter (\<lambda>t. t_bytes t = 10) tie_tenant_rows) =
      [''Python'', ''Markdown'']" by (simp only:)
  have f: "first_seen (map language (filter (\<lambda>r. language r \<noteq> []) tie_repo_rows)) =
       [''Python'', ''Markdown'', ''Go'']" by code_simp
  from h s e f show ?thesis by blast
qed

text \<open>
  C6, as the code has it. In a run that writes its reports (in particular one without a
  recency filter), the bytes of every tenant-level row are the sum of the bytes of the
  repository-level rows of its language; there is one tenant-level row for each language,
  and the languages that have a tenant-level row are exactly those of the repository-level
  rows that have a language, the rows with zero bytes among them.
\<close>

theorem tenant_rows_match_repo_rows:
  "main cfg tenant = Inr out \<and> repo_csv out = Some (h1, rrows)
     \<and> tenant_csv out = Some (h2, trows) \<longrightarrow>
   (\<forall>t\<in>set trows.
       t_bytes t = sum_list (map bytes (filter (\<lambda>r. language r = t_language t) rrows)))
   \<and> set (map t_language trows) = {language r |r. r \<in> set rrows \<and> language r \<noteq> []}
   \<and> distinct (map t_language trows)"
proof (intro impI)
  assume a: "main cfg tenant = Inr out \<and> repo_csv out = Some (h1, rrows)
     \<and> tenant_csv out = Some (h2, trows)"
  let ?tt = "tally_from [] (lang_rows rrows)"
  let ?mk = "\<lambda>e. \<lparr>t_language = fst e, t_bytes = snd e,
                percent_all_files = Percent (snd e) (sum_or_1 ?tt)\<rparr>"
  from a have tr: "trows = map ?mk (most_common ?tt)"
    by (intro main_tenant_rows) auto
  have keys: "map t_language trows = map fst (most_common ?tt)"
    by (simp add: tr comp_def)
  have ks: "set (map fst ?tt) = {language r |r. r \<in> set rrows \<and> language r \<noteq> []}"
    by (auto simp: keys_tally_of set_first_seen keys_lang_rows)
  have c1: "\<forall>t\<in>set trows.
       t_bytes t = sum_list (map bytes (filter (\<lambda>r. language r = t_language t) rrows))"
  proof
    fix t assume "t \<in> set trows"
    then obtain e where e: "e \<in> set ?tt" and t: "t = ?mk e"
      by (auto simp: tr set_most_common)
    from e have "fst e \<in> set (map fst ?tt)" by auto
    with ks have ne: "fst e \<noteq> []" by auto
    from e have "counter_get ?tt (fst e) = snd e"
      by (intro counter_get_distinct [OF distinct_tally]) simp
    with ne show "t_bytes t = sum_list (map bytes (filter (\<lambda>r. language r = t_language t) rrows))"
      by (simp add: t counter_get_tally_rows)
  qed
  have c2: "set (map t_language trows) = {language r |r. r \<in> set rrows \<and> language r \<noteq> []}"
    using ks by (simp only: keys set_map set_most_common)
  have c3: "distinct (map t_language trows)"
    by (simp only: keys distinct_keys_most_common [OF distinct_tally])
  from c1 c2 c3 show "(\<forall>t\<in>set trows.
       t_bytes t = sum_list (map bytes (filter (\<lambda>r. language r = t_language t) rrows)))
   \<and> set (map t_language trows) = {language r |r. r \<in> set rrows \<and> language r \<noteq> []}
   \<and> distinct (map t_language trows)"
    by blast
qed

theorem tenant_rows_match_repo_rows_witness:
  "main (scenario_config False) (Some [\<lparr>proj_name = ''P'', repos = Some [tie_repo]\<rparr>]) =
     Inr tie_output
   \<and> repo_csv tie_output = Some (repo_header, tie_repo_rows)
   \<and> tenant_csv tie_output = Some (tenant_header, tie_tenant_rows)
   \<and> t_bytes (hd tie_tenant_rows) =
       sum_list (map bytes (filter (\<lambda>r. language r = t_language (hd tie_tenant_rows)) tie_repo_rows))
   \<and> set (map t_language tie_tenant_rows) =
       {language r |r. r \<in> set tie_repo_rows \<and> language r \<noteq> []}
   \<and> distinct (map t_language tie_tenant_rows)"
proof -
  have h: "main (scenario_config False) (Some [\<lparr>proj_name = ''P'', repos = Some [tie_repo]\<rparr>]) =
     Inr tie_output
   \<and> repo_csv tie_output = Some (repo_header, tie_repo_rows)
   \<and> tenant_csv tie_output = Some (tenant_header, tie_tenant_rows)"
    using tie_run by (simp add: tie_output_def)
  note t = tenant_rows_match_repo_rows [where cfg = "scenario_config False"
      and tenant = "Some [\<lparr>proj_name = ''P'', repos = Some [tie_repo]\<rparr>]"
      and out = tie_output and ?h1.0 = repo_header and rrows = tie_repo_rows
      and ?h2.0 = tenant_header and trows = tie_tenant_rows]
  have m: "hd tie_tenant_rows \<in> set tie_tenant_rows" by (simp add: tie_tenant_rows_def)
  from t h m have a: "t_bytes (hd tie_tenant_rows) =
       sum_list (map bytes (filter (\<lambda>r. language r = t_language (hd tie_tenant_rows)) tie_repo_rows))"
    by blast
  from t h have b: "set (map t_language tie_tenant_rows) =
       {language r |r. r \<in> set tie_repo_rows \<and> language r \<noteq> []}" by blast
  from t h have c: "distinct (map t_language tie_tenant_rows)" by blast
  from h a b c show ?thesis by blast
qed

text \<open>
  C6 as the claim is written has a tenant-level row only for a language with a
  repository-level row of nonzero bytes. A repository with a.py of 100 bytes and an empty
  notes.md has a row for Markdown with zero bytes in both reports: Markdown has a
  tenant-level row, and no repository-level row of nonzero bytes.
\<close>

theorem zero_byte_language_row_counterexample:
  "main (scenario_config False) (Some [\<lparr>proj_name = ''P'', repos = Some [zero_file_repo]\<rparr>]) =
     Inr \<lparr>exit_status = 0,
          repo_csv = Some (repo_header, zero_file_repo_rows),
          tenant_csv = Some (tenant_header, zero_file_tenant_rows),
          code_only_summary = [(''Python'', Percent 100 100), (''Markdown'', Percent 0 100)],
          err_stream = []\<rparr>
   \<and> ''Markdown'' \<in> set (map t_language zero_file_tenant_rows)
   \<and> ''Markdown'' \<notin> set (map language (filter (\<lambda>r. bytes r \<noteq> 0) zero_file_repo_rows))"
proof (intro conjI)
  show "main (scenario_config False)
      (Some [\<lparr>proj_name = ''P'', repos = Some [zero_file_repo]\<rparr>]) =
     Inr \<lparr>exit_status = 0,
          repo_csv = Some (repo_header, zero_file_repo_rows),
          tenant_csv = Some (tenant_header, zero_file_tenant_rows),
          code_only_summary = [(''Python'', Percent 100 100), (''Markdown'', Percent 0 100)],
          err_stream = []\<rparr>"
    by code_simp
next
  show "''Markdown'' \<in> set (map t_language zero_file_tenant_rows)"
    by (simp add: zero_file_tenant_rows_def)
next
  show "''Markdown'' \<notin> set (map language (filter (\<lambda>r. bytes r \<noteq> 0) zero_file_repo_rows))"
    by (simp add: zero_file_repo_rows_def)
qed



subsection \<open>The percentages of the tenant-level report\<close>




















end
